theory Spec2Isabelle
  imports Main "HOL-Library.Char_ord" "HOL-Library.List_Lexorder"
begin

section \<open>The persistent store\<close>

text \<open>
  The handlers of the backend (package \<open>handlers\<close>) work on four tables of one SQLite
  database: \<open>challenges\<close>, \<open>posts\<close>, \<open>challenge_submissions\<close> and \<open>users\<close>. A table is
  the list of its rows, a nullable column is an \<open>option\<close>.
  The tables are created by \<open>CreateTables\<close> without any \<open>ON DELETE\<close> action, and
  \<open>PickChallenge\<close> stores the post reference \<open>0\<close>, which names no post: deleting or
  updating a row of one table never touches another table unless a handler says so.
  The column \<open>status\<close> only ever holds the three values the handlers and the schema
  default write; \<open>challenge_type\<close> is kept as the string it is, because the handlers
  compare it with different literals (\<open>PickChallenge\<close> tests for \<open>open\<close>,
  \<open>CompleteChallenge\<close> for \<open>exclusive\<close>). Columns that no handler below reads or
  writes (titles, images, creation times) are left out.
\<close>

text \<open>
  A timestamp is the text SQLite holds. The driver (\<open>go-sqlite3\<close>) writes a Go
  \<open>time.Time\<close> as \<open>2006-01-02 15:04:05.999999999-07:00\<close>, the wall clock followed by
  the zone offset; \<open>CURRENT_TIMESTAMP\<close> is the text \<open>YYYY-MM-DD HH:MM:SS\<close> in UTC. The
  date columns are declared \<open>TIMESTAMP\<close>, so such text is stored as text, and SQLite
  compares two texts byte by byte, a proper prefix being the smaller: the lexicographic
  order on strings.
\<close>

type_synonym time = string

datatype status = Available | InProgress | Completed

record challenge =
  c_id :: int
  c_points :: int
  c_assigned_to :: "int option"
  c_status :: status
  c_completed_by :: "int option"
  c_completed_post_id :: "int option"
  c_completed_at :: "time option"
  c_start_date :: "time option"
  c_end_date :: "time option"
  c_challenge_type :: string

record post =
  p_id :: int
  p_user_id :: int
  p_challenge_id :: int
  p_media_url :: string
  p_media_type :: string
  p_caption :: string
  p_revoked :: bool

record submission =
  cs_challenge_id :: int
  cs_user_id :: int
  cs_post_id :: int

record user =
  u_id :: int
  u_role :: string

text \<open>
  \<open>posts_seq\<close> and \<open>challenges_seq\<close> are the \<open>AUTOINCREMENT\<close> counters of the two tables:
  the largest id handed out so far.
\<close>

record db =
  challenges :: "challenge list"
  posts :: "post list"
  challenge_submissions :: "submission list"
  users :: "user list"
  posts_seq :: int
  challenges_seq :: int

subsection \<open>SQL statements\<close>

text \<open>\<open>UPDATE t SET f WHERE P\<close>: the number of rows affected and the new table.\<close>

definition sql_update :: "('r \<Rightarrow> bool) \<Rightarrow> ('r \<Rightarrow> 'r) \<Rightarrow> 'r list \<Rightarrow> nat \<times> 'r list" where
  "sql_update P f rows = (length (filter P rows), map (\<lambda>r. if P r then f r else r) rows)"

text \<open>\<open>DELETE FROM t WHERE P\<close>: the number of rows affected and the new table.\<close>

definition sql_delete :: "('r \<Rightarrow> bool) \<Rightarrow> 'r list \<Rightarrow> nat \<times> 'r list" where
  "sql_delete P rows = (length (filter P rows), filter (\<lambda>r. \<not> P r) rows)"

text \<open>\<open>SELECT COUNT(*) FROM t WHERE P\<close>.\<close>

definition sql_count :: "('r \<Rightarrow> bool) \<Rightarrow> 'r list \<Rightarrow> nat" where
  "sql_count P rows = length (filter P rows)"

text \<open>
  \<open>(start_date IS NULL OR start_date <= CURRENT_TIMESTAMP) AND
   (end_date IS NULL OR end_date >= CURRENT_TIMESTAMP)\<close>, where \<open>now\<close> is the text of
  \<open>CURRENT_TIMESTAMP\<close> and both comparisons are comparisons of text. A start date
  written by the driver ends in its offset, so in the very second it names it is still
  larger than \<open>now\<close>; a date written with another offset than UTC is compared by its
  wall clock.
\<close>

definition in_window :: "challenge \<Rightarrow> time \<Rightarrow> bool" where
  "in_window c now =
     ((case c_start_date c of None \<Rightarrow> True | Some s \<Rightarrow> s \<le> now) \<and>
      (case c_end_date c of None \<Rightarrow> True | Some e \<Rightarrow> e \<ge> now))"

definition is_submission :: "int \<Rightarrow> int \<Rightarrow> submission \<Rightarrow> bool" where
  "is_submission challengeID userID s =
     (cs_challenge_id s = challengeID \<and> cs_user_id s = userID)"

section \<open>The assignment handlers\<close>

subsection \<open>PickChallenge\<close>

datatype pick_result =
    PickOk
  | PickNotFound
  | PickNotAvailable
  | PickAlreadyJoined
  | PickJoinFailed
  | PickAlreadyAssigned
  | PickAlreadyTaken

text \<open>
  The conditional \<open>UPDATE\<close> of the exclusive branch:
  \<open>SET assigned_to = ?, status = 'in_progress' WHERE id = ? AND assigned_to IS NULL AND
   status = 'available'\<close> and the window.
\<close>

definition pick_assign :: "db \<Rightarrow> time \<Rightarrow> int \<Rightarrow> int \<Rightarrow> nat \<times> db" where
  "pick_assign d now challengeID userID =
     (case sql_update
             (\<lambda>c. c_id c = challengeID \<and> c_assigned_to c = None \<and> c_status c = Available
                   \<and> in_window c now)
             (\<lambda>c. c\<lparr>c_assigned_to := Some userID, c_status := InProgress\<rparr>)
             (challenges d)
      of (rowsAffected, cs) \<Rightarrow> (rowsAffected, d\<lparr>challenges := cs\<rparr>))"

text \<open>
  \<open>PickChallenge\<close> runs its statements directly on the connection, not in a
  transaction, so another request can commit between any two of them.
  \<open>PickChallenge_at ds t0 dc d t1\<close> is the handler whose first \<open>SELECT\<close> (type and
  status, inside the window) sees the store \<open>ds\<close> at time \<open>t0\<close>, whose
  \<open>SELECT COUNT(*)\<close> sees the store \<open>dc\<close>, and whose \<open>INSERT\<close> or \<open>UPDATE\<close> executes on
  the store \<open>d\<close> at time \<open>t1\<close>.
  Results, in the order of the source: 404 (not found or outside the date range),
  409 (not available), 400 (already joined), 500 (the insert violates
  \<open>UNIQUE(challenge_id, user_id)\<close>), 400 (already assigned), 409 (zero rows affected),
  200. Failures of the database connection itself are not modelled.
\<close>

definition PickChallenge_at ::
    "db \<Rightarrow> time \<Rightarrow> db \<Rightarrow> db \<Rightarrow> time \<Rightarrow> int \<Rightarrow> int \<Rightarrow> pick_result \<times> db" where
  "PickChallenge_at ds t0 dc d t1 challengeID userID =
     (case find (\<lambda>c. c_id c = challengeID \<and> in_window c t0) (challenges ds) of
        None \<Rightarrow> (PickNotFound, d)
      | Some c \<Rightarrow>
          if c_status c \<noteq> Available then (PickNotAvailable, d)
          else if c_challenge_type c = ''open'' then
            (if sql_count (is_submission challengeID userID) (challenge_submissions dc) > 0
             then (PickAlreadyJoined, d)
             else if sql_count (is_submission challengeID userID) (challenge_submissions d) > 0
             then (PickJoinFailed, d)
             else (PickOk, d\<lparr>challenge_submissions := challenge_submissions d @
                     [\<lparr>cs_challenge_id = challengeID, cs_user_id = userID, cs_post_id = 0\<rparr>]\<rparr>))
          else
            (if sql_count (\<lambda>c. c_id c = challengeID \<and> c_assigned_to c = Some userID)
                  (challenges dc) > 0
             then (PickAlreadyAssigned, d)
             else (case pick_assign d t1 challengeID userID of
                     (rowsAffected, d') \<Rightarrow>
                       if rowsAffected = 0 then (PickAlreadyTaken, d') else (PickOk, d'))))"

text \<open>The handler running alone: every statement on the same store at the same time.\<close>

definition PickChallenge :: "db \<Rightarrow> time \<Rightarrow> int \<Rightarrow> int \<Rightarrow> pick_result \<times> db" where
  "PickChallenge d now challengeID userID = PickChallenge_at d now d d now challengeID userID"

subsection \<open>CancelChallenge\<close>

datatype cancel_result = CancelOk | CancelChallengeNotFound | CancelNotYours

definition CancelChallenge :: "db \<Rightarrow> int \<Rightarrow> int \<Rightarrow> cancel_result \<times> db" where
  "CancelChallenge d challengeID userID =
     (case find (\<lambda>c. c_id c = challengeID) (challenges d) of
        None \<Rightarrow> (CancelChallengeNotFound, d)
      | Some c \<Rightarrow>
          (case (if c_challenge_type c = ''open'' then
                   (case sql_delete (\<lambda>s. is_submission challengeID userID s \<and> cs_post_id s = 0)
                           (challenge_submissions d)
                    of (n, ss) \<Rightarrow> (n, d\<lparr>challenge_submissions := ss\<rparr>))
                 else
                   (case sql_update
                           (\<lambda>c. c_id c = challengeID \<and> c_assigned_to c = Some userID)
                           (\<lambda>c. c\<lparr>c_assigned_to := None, c_status := Available\<rparr>)
                           (challenges d)
                    of (n, cs) \<Rightarrow> (n, d\<lparr>challenges := cs\<rparr>)))
           of (rowsAffected, d') \<Rightarrow>
                if rowsAffected = 0 then (CancelNotYours, d') else (CancelOk, d')))"

subsection \<open>CompleteChallenge\<close>

text \<open>
  The handler first stores the uploaded media file; the model starts where the
  transaction starts, with the media URL, the media type and the caption in hand.
  A result that is not a success rolls the transaction back: the store is unchanged.
  \<open>CompleteSuccess\<close> and \<open>CompleteAwaitingReview\<close> carry \<open>post_id\<close> and \<open>points_earned\<close>
  of the two JSON responses.
\<close>

datatype complete_result =
    CompleteSuccess int int
  | CompleteAwaitingReview int int
  | CompleteChallengeNotFound
  | CompleteNotAssigned
  | CompleteNotJoined
  | CompleteAlreadySubmitted

definition complete_check :: "db \<Rightarrow> challenge \<Rightarrow> int \<Rightarrow> int \<Rightarrow> complete_result option" where
  "complete_check d c challengeID userID =
     (if c_challenge_type c = ''exclusive'' then
        (if sql_count (\<lambda>c. c_id c = challengeID \<and> c_assigned_to c = Some userID
                            \<and> c_status c = InProgress) (challenges d) = 0
         then Some CompleteNotAssigned else None)
      else
        (if sql_count (is_submission challengeID userID) (challenge_submissions d) = 0
         then Some CompleteNotJoined
         else (case find (is_submission challengeID userID) (challenge_submissions d) of
                 None \<Rightarrow> None
               | Some s \<Rightarrow> if cs_post_id s > 0 then Some CompleteAlreadySubmitted else None)))"

definition CompleteChallenge ::
    "db \<Rightarrow> time \<Rightarrow> int \<Rightarrow> int \<Rightarrow> string \<Rightarrow> string \<Rightarrow> string \<Rightarrow> complete_result \<times> db" where
  "CompleteChallenge d now challengeID userID mediaURL mediaType caption =
     (case find (\<lambda>c. c_id c = challengeID) (challenges d) of
        None \<Rightarrow> (CompleteChallengeNotFound, d)
      | Some c \<Rightarrow>
          (case complete_check d c challengeID userID of
             Some e \<Rightarrow> (e, d)
           | None \<Rightarrow>
               (let postID = posts_seq d + 1;
                    d1 = d\<lparr>posts := posts d @
                            [\<lparr>p_id = postID, p_user_id = userID, p_challenge_id = challengeID,
                              p_media_url = mediaURL, p_media_type = mediaType,
                              p_caption = caption, p_revoked = False\<rparr>],
                          posts_seq := postID\<rparr>
                in if c_challenge_type c = ''exclusive'' then
                     (CompleteSuccess postID (c_points c),
                      d1\<lparr>challenges := snd (sql_update (\<lambda>c. c_id c = challengeID)
                          (\<lambda>c. c\<lparr>c_assigned_to := None, c_status := Completed,
                                  c_completed_by := Some userID,
                                  c_completed_post_id := Some postID,
                                  c_completed_at := Some now\<rparr>)
                          (challenges d1))\<rparr>)
                   else
                     (CompleteAwaitingReview postID 0,
                      d1\<lparr>challenge_submissions := snd (sql_update
                          (is_submission challengeID userID)
                          (\<lambda>s. s\<lparr>cs_post_id := postID\<rparr>)
                          (challenge_submissions d1))\<rparr>))))"

subsection \<open>The administrator's handlers\<close>

datatype award_result =
    AwardOk
  | AwardUserRequired
  | AwardChallengeNotFound
  | AwardNotOpen
  | AwardAlreadyAwarded
  | AwardNoSubmission

definition AwardChallenge :: "db \<Rightarrow> time \<Rightarrow> int \<Rightarrow> int \<Rightarrow> award_result \<times> db" where
  "AwardChallenge d now challengeID winner =
     (if winner = 0 then (AwardUserRequired, d)
      else case find (\<lambda>c. c_id c = challengeID) (challenges d) of
        None \<Rightarrow> (AwardChallengeNotFound, d)
      | Some c \<Rightarrow>
          if c_challenge_type c \<noteq> ''open'' then (AwardNotOpen, d)
          else if c_status c = Completed then (AwardAlreadyAwarded, d)
          else (case find (\<lambda>s. is_submission challengeID winner s \<and> cs_post_id s > 0)
                       (challenge_submissions d) of
                  None \<Rightarrow> (AwardNoSubmission, d)
                | Some s \<Rightarrow>
                    (AwardOk,
                     d\<lparr>challenges := snd (sql_update (\<lambda>c. c_id c = challengeID)
                         (\<lambda>c. c\<lparr>c_status := Completed, c_completed_by := Some winner,
                                 c_completed_post_id := Some (cs_post_id s),
                                 c_completed_at := Some now\<rparr>)
                         (challenges d))\<rparr>)))"

datatype unassign_result = UnassignOk | UnassignNotAssigned

definition UnassignChallenge :: "db \<Rightarrow> int \<Rightarrow> unassign_result \<times> db" where
  "UnassignChallenge d challengeID =
     (case sql_update (\<lambda>c. c_id c = challengeID \<and> c_status c = InProgress)
             (\<lambda>c. c\<lparr>c_assigned_to := None, c_status := Available\<rparr>) (challenges d)
      of (rowsAffected, cs) \<Rightarrow>
           if rowsAffected = 0 then (UnassignNotAssigned, d\<lparr>challenges := cs\<rparr>)
           else (UnassignOk, d\<lparr>challenges := cs\<rparr>))"

text \<open>
  \<open>SELECT ... FROM posts p JOIN challenges c ON p.challenge_id = c.id WHERE p.id = ?\<close>:
  the post must exist and so must its challenge.
\<close>

definition has_challenge :: "db \<Rightarrow> post \<Rightarrow> bool" where
  "has_challenge d p = (find (\<lambda>c. c_id c = p_challenge_id p) (challenges d) \<noteq> None)"

datatype revoke_result = RevokeOk | RevokePostNotFound

definition RevokePostPoints :: "db \<Rightarrow> int \<Rightarrow> revoke_result \<times> db" where
  "RevokePostPoints d postID =
     (case find (\<lambda>p. p_id p = postID \<and> has_challenge d p) (posts d) of
        None \<Rightarrow> (RevokePostNotFound, d)
      | Some p \<Rightarrow>
          (RevokeOk,
           d\<lparr>challenges := snd (sql_update (\<lambda>c. c_id c = p_challenge_id p)
                 (\<lambda>c. c\<lparr>c_assigned_to := None, c_status := Available,
                         c_completed_by := None, c_completed_post_id := None,
                         c_completed_at := None\<rparr>)
                 (challenges d)),
             posts := snd (sql_update (\<lambda>p. p_id p = postID) (\<lambda>p. p\<lparr>p_revoked := True\<rparr>)
                 (posts d))\<rparr>))"

subsection \<open>DeletePost\<close>

datatype delete_result = DeleteOk | DeleteNotFound

definition DeletePost :: "db \<Rightarrow> int \<Rightarrow> int \<Rightarrow> delete_result \<times> db" where
  "DeletePost d postID userID =
     (case find (\<lambda>p. p_id p = postID \<and> p_user_id p = userID \<and> has_challenge d p) (posts d) of
        None \<Rightarrow> (DeleteNotFound, d)
      | Some p \<Rightarrow>
          (DeleteOk,
           d\<lparr>posts := snd (sql_delete (\<lambda>p. p_id p = postID) (posts d)),
             challenges := snd (sql_update (\<lambda>c. c_id c = p_challenge_id p)
                 (\<lambda>c. c\<lparr>c_assigned_to := None, c_status := Available\<rparr>)
                 (challenges d))\<rparr>))"

section \<open>The scoring projection\<close>

text \<open>
  \<open>GetProfile\<close> and \<open>GetLeaderboard\<close> compute the two aggregates with the same SQL: the
  user's posts that are not revoked (\<open>LEFT JOIN posts p ON u.id = p.user_id AND
  p.revoked = FALSE\<close>), each joined with its challenge (\<open>id\<close> is the primary key, so at
  most one), and the \<open>CASE\<close> condition below. A post whose challenge is gone joins with
  \<open>NULL\<close>s and counts for nothing.
\<close>

definition earns_points :: "challenge \<Rightarrow> int \<Rightarrow> bool" where
  "earns_points c userID =
     (c_status c = Completed \<and>
      (c_challenge_type c = ''exclusive'' \<or>
       (c_challenge_type c = ''open'' \<and> c_completed_by c = Some userID)))"

definition user_posts :: "db \<Rightarrow> int \<Rightarrow> post list" where
  "user_posts d userID = filter (\<lambda>p. p_user_id p = userID \<and> \<not> p_revoked p) (posts d)"

definition post_points :: "db \<Rightarrow> int \<Rightarrow> post \<Rightarrow> int" where
  "post_points d userID p =
     (case find (\<lambda>c. c_id c = p_challenge_id p) (challenges d) of
        None \<Rightarrow> 0
      | Some c \<Rightarrow> if earns_points c userID then c_points c else 0)"

definition post_counts :: "db \<Rightarrow> int \<Rightarrow> post \<Rightarrow> bool" where
  "post_counts d userID p =
     (case find (\<lambda>c. c_id c = p_challenge_id p) (challenges d) of
        None \<Rightarrow> False
      | Some c \<Rightarrow> earns_points c userID)"

definition total_points :: "db \<Rightarrow> int \<Rightarrow> int" where
  "total_points d userID = sum_list (map (post_points d userID) (user_posts d userID))"

definition challenges_completed :: "db \<Rightarrow> int \<Rightarrow> nat" where
  "challenges_completed d userID = length (filter (post_counts d userID) (user_posts d userID))"

text \<open>\<open>GetProfile\<close>: \<open>WHERE u.id = ?\<close>; no row is the handler's error response.\<close>

definition GetProfile :: "db \<Rightarrow> int \<Rightarrow> (int \<times> nat) option" where
  "GetProfile d userID =
     (case find (\<lambda>u. u_id u = userID) (users d) of
        None \<Rightarrow> None
      | Some u \<Rightarrow> Some (total_points d (u_id u), challenges_completed d (u_id u)))"

text \<open>
  \<open>GetLeaderboard\<close>: \<open>WHERE u.role != 'admin' ... ORDER BY total_points DESC,
  challenges_completed DESC\<close>. A row is (user id, total points, challenges completed);
  rows that tie keep the order of the \<open>users\<close> table.
\<close>

type_synonym leaderboard_row = "int \<times> int \<times> nat"

fun ranks_before :: "leaderboard_row \<Rightarrow> leaderboard_row \<Rightarrow> bool" where
  "ranks_before (_, tp, cc) (_, tp', cc') = (tp > tp' \<or> (tp = tp' \<and> cc \<ge> cc'))"

fun insert_row :: "leaderboard_row \<Rightarrow> leaderboard_row list \<Rightarrow> leaderboard_row list" where
  "insert_row r [] = [r]"
| "insert_row r (x # xs) = (if ranks_before r x then r # x # xs else x # insert_row r xs)"

definition order_rows :: "leaderboard_row list \<Rightarrow> leaderboard_row list" where
  "order_rows rows = foldr insert_row rows []"

definition GetLeaderboard :: "db \<Rightarrow> leaderboard_row list" where
  "GetLeaderboard d =
     order_rows (map (\<lambda>u. (u_id u, total_points d (u_id u), challenges_completed d (u_id u)))
                     (filter (\<lambda>u. u_role u \<noteq> ''admin'') (users d)))"

section \<open>Sequences of requests\<close>

text \<open>
  \<open>CreateChallenge\<close>, as far as the store goes: the type defaults to \<open>exclusive\<close> and must
  be one of the two; the \<open>INSERT\<close> names the points, the dates and the type, every other
  column takes the default of the schema (\<open>status\<close> is \<open>'available'\<close>, the references
  are \<open>NULL\<close>). The dates are given as the text the driver stores for them. The result
  is the id of the new row, if one was inserted.
\<close>

definition CreateChallenge ::
    "db \<Rightarrow> int \<Rightarrow> time option \<Rightarrow> time option \<Rightarrow> string \<Rightarrow> int option \<times> db" where
  "CreateChallenge d points startDate endDate challengeType0 =
     (let challengeType = (if challengeType0 = [] then ''exclusive'' else challengeType0)
      in if challengeType \<noteq> ''exclusive'' \<and> challengeType \<noteq> ''open'' then (None, d)
         else (let challengeID = challenges_seq d + 1
               in (Some challengeID,
                   d\<lparr>challenges := challenges d @
                        [\<lparr>c_id = challengeID, c_points = points, c_assigned_to = None,
                          c_status = Available, c_completed_by = None,
                          c_completed_post_id = None, c_completed_at = None,
                          c_start_date = startDate, c_end_date = endDate,
                          c_challenge_type = challengeType\<rparr>],
                      challenges_seq := challengeID\<rparr>)))"

datatype request =
    PickReq time int int
  | CancelReq int int
  | CompleteReq time int int string string string
  | AwardReq time int int
  | UnassignReq int
  | RevokeReq int
  | DeleteReq int int
  | CreateReq int "time option" "time option" string

fun handle :: "db \<Rightarrow> request \<Rightarrow> db" where
  "handle d (PickReq now challengeID userID) = snd (PickChallenge d now challengeID userID)"
| "handle d (CancelReq challengeID userID) = snd (CancelChallenge d challengeID userID)"
| "handle d (CompleteReq now challengeID userID mediaURL mediaType caption) =
     snd (CompleteChallenge d now challengeID userID mediaURL mediaType caption)"
| "handle d (AwardReq now challengeID winner) = snd (AwardChallenge d now challengeID winner)"
| "handle d (UnassignReq challengeID) = snd (UnassignChallenge d challengeID)"
| "handle d (RevokeReq postID) = snd (RevokePostPoints d postID)"
| "handle d (DeleteReq postID userID) = snd (DeletePost d postID userID)"
| "handle d (CreateReq points startDate endDate challengeType) =
     snd (CreateChallenge d points startDate endDate challengeType)"

definition run :: "db \<Rightarrow> request list \<Rightarrow> db" where
  "run d reqs = foldl handle d reqs"

section \<open>Example stores\<close>

text \<open>
  One administrator and three users; challenge 1 is exclusive and worth 50 points,
  challenge 2 is open and worth 30 points. In \<open>picked_store\<close> user 2 holds challenge 1,
  in \<open>completed_store\<close> user 2 has completed it with post 1. In \<open>awarded_store\<close>
  users 2, 3 and 4 have joined challenge 2 and submitted posts 1, 2 and 3, and the
  administrator has awarded user 3.
\<close>

abbreviation clock5 :: time where "clock5 \<equiv> ''2025-06-01 10:00:05''"
abbreviation clock6 :: time where "clock6 \<equiv> ''2025-06-01 10:00:06''"
abbreviation clock7 :: time where "clock7 \<equiv> ''2025-06-01 10:00:07''"
abbreviation clock8 :: time where "clock8 \<equiv> ''2025-06-01 10:00:08''"
abbreviation clock9 :: time where "clock9 \<equiv> ''2025-06-01 10:00:09''"

definition empty_store :: db where
  "empty_store = \<lparr>challenges = [], posts = [], challenge_submissions = [],
     users = [\<lparr>u_id = 1, u_role = ''admin''\<rparr>, \<lparr>u_id = 2, u_role = ''user''\<rparr>,
              \<lparr>u_id = 3, u_role = ''user''\<rparr>, \<lparr>u_id = 4, u_role = ''user''\<rparr>],
     posts_seq = 0, challenges_seq = 0\<rparr>"

definition demo_store :: db where
  "demo_store = run empty_store
     [CreateReq 50 None None ''exclusive'', CreateReq 30 None None ''open'']"

definition picked_store :: db where
  "picked_store = run demo_store [PickReq clock5 1 2]"

definition completed_store :: db where
  "completed_store = run picked_store [CompleteReq clock6 1 2 ''/uploads/posts/m.jpg'' ''photo'' ''done'']"

definition awarded_store :: db where
  "awarded_store = run demo_store
     [PickReq clock5 2 2, PickReq clock5 2 3, PickReq clock5 2 4,
      CompleteReq clock6 2 2 ''/uploads/posts/a.jpg'' ''photo'' ''a'',
      CompleteReq clock6 2 3 ''/uploads/posts/b.jpg'' ''photo'' ''b'',
      CompleteReq clock6 2 4 ''/uploads/posts/c.jpg'' ''photo'' ''c'',
      AwardReq clock7 2 3]"

text \<open>In \<open>joined_store\<close> user 2 has joined the open challenge 2 and not yet submitted.\<close>

definition joined_store :: db where
  "joined_store = run demo_store [PickReq clock5 2 2]"

text \<open>
  \<open>timed_store\<close> holds one exclusive challenge with a start and an end date as the driver
  writes UTC times; the start date of \<open>offset_store\<close> was written with the offset
  \<open>+02:00\<close>.
\<close>

definition timed_store :: db where
  "timed_store = run empty_store
     [CreateReq 50 (Some ''2025-06-01 10:00:05+00:00'') (Some ''2025-06-30 23:59:59+00:00'')
        ''exclusive'']"

definition offset_store :: db where
  "offset_store = run empty_store
     [CreateReq 50 (Some ''2025-06-01 12:00:00+02:00'') None ''exclusive'']"

text \<open>
  \<open>scenario_store\<close>: user 2 picks challenge 1, user 3 tries and fails, user 2 cancels,
  user 3 picks and completes it, the administrator revokes the post, user 4 picks it.
\<close>

definition scenario_store :: db where
  "scenario_store = run demo_store
     [PickReq clock5 1 2, PickReq clock5 1 3, CancelReq 1 2, PickReq clock6 1 3,
      CompleteReq clock7 1 3 ''/uploads/posts/m.jpg'' ''photo'' ''done'', RevokeReq 1,
      PickReq clock8 1 4]"

section \<open>Constraints of the schema and the assignment invariant\<close>

text \<open>
  \<open>store_ok\<close>: \<open>challenges.id\<close> is a primary key handed out by \<open>AUTOINCREMENT\<close>, and
  \<open>challenge_submissions\<close> has \<open>UNIQUE(challenge_id, user_id)\<close>.
\<close>

definition store_ok :: "db \<Rightarrow> bool" where
  "store_ok d =
     (distinct (map c_id (challenges d)) \<and>
      (\<forall>c\<in>set (challenges d). c_id c \<le> challenges_seq d) \<and>
      distinct (map (\<lambda>s. (cs_challenge_id s, cs_user_id s)) (challenge_submissions d)))"

text \<open>
  \<open>assignment_ok\<close>: a challenge is assigned exactly when it is in progress, and an open
  challenge is never assigned.
\<close>

definition assignment_ok :: "challenge \<Rightarrow> bool" where
  "assignment_ok c =
     ((c_assigned_to c \<noteq> None \<longleftrightarrow> c_status c = InProgress) \<and>
      (c_challenge_type c = ''open'' \<longrightarrow> c_assigned_to c = None))"

text \<open>The columns of a challenge that no handler changes, and the key of a submission.\<close>

definition id_type :: "challenge \<Rightarrow> int \<times> string" where
  "id_type c = (c_id c, c_challenge_type c)"

definition sub_key :: "submission \<Rightarrow> int \<times> int" where
  "sub_key s = (cs_challenge_id s, cs_user_id s)"

section \<open>The example stores, evaluated\<close>

lemma demo_store_eq:
  "demo_store = \<lparr>challenges =
      [\<lparr>c_id = 1, c_points = 50, c_assigned_to = None, c_status = Available,
        c_completed_by = None, c_completed_post_id = None, c_completed_at = None,
        c_start_date = None, c_end_date = None, c_challenge_type = ''exclusive''\<rparr>,
       \<lparr>c_id = 2, c_points = 30, c_assigned_to = None, c_status = Available,
        c_completed_by = None, c_completed_post_id = None, c_completed_at = None,
        c_start_date = None, c_end_date = None, c_challenge_type = ''open''\<rparr>],
     posts = [], challenge_submissions = [],
     users = [\<lparr>u_id = 1, u_role = ''admin''\<rparr>, \<lparr>u_id = 2, u_role = ''user''\<rparr>,
              \<lparr>u_id = 3, u_role = ''user''\<rparr>, \<lparr>u_id = 4, u_role = ''user''\<rparr>],
     posts_seq = 0, challenges_seq = 2\<rparr>"
  by (simp add: demo_store_def empty_store_def run_def CreateChallenge_def)

lemma picked_store_eq:
  "picked_store = \<lparr>challenges =
      [\<lparr>c_id = 1, c_points = 50, c_assigned_to = Some 2, c_status = InProgress,
        c_completed_by = None, c_completed_post_id = None, c_completed_at = None,
        c_start_date = None, c_end_date = None, c_challenge_type = ''exclusive''\<rparr>,
       \<lparr>c_id = 2, c_points = 30, c_assigned_to = None, c_status = Available,
        c_completed_by = None, c_completed_post_id = None, c_completed_at = None,
        c_start_date = None, c_end_date = None, c_challenge_type = ''open''\<rparr>],
     posts = [], challenge_submissions = [],
     users = [\<lparr>u_id = 1, u_role = ''admin''\<rparr>, \<lparr>u_id = 2, u_role = ''user''\<rparr>,
              \<lparr>u_id = 3, u_role = ''user''\<rparr>, \<lparr>u_id = 4, u_role = ''user''\<rparr>],
     posts_seq = 0, challenges_seq = 2\<rparr>"
  by (simp add: picked_store_def demo_store_eq run_def PickChallenge_def PickChallenge_at_def
      pick_assign_def sql_update_def sql_count_def in_window_def)

lemma completed_store_eq:
  "completed_store = \<lparr>challenges =
      [\<lparr>c_id = 1, c_points = 50, c_assigned_to = None, c_status = Completed,
        c_completed_by = Some 2, c_completed_post_id = Some 1, c_completed_at = Some clock6,
        c_start_date = None, c_end_date = None, c_challenge_type = ''exclusive''\<rparr>,
       \<lparr>c_id = 2, c_points = 30, c_assigned_to = None, c_status = Available,
        c_completed_by = None, c_completed_post_id = None, c_completed_at = None,
        c_start_date = None, c_end_date = None, c_challenge_type = ''open''\<rparr>],
     posts = [\<lparr>p_id = 1, p_user_id = 2, p_challenge_id = 1,
        p_media_url = ''/uploads/posts/m.jpg'', p_media_type = ''photo'',
        p_caption = ''done'', p_revoked = False\<rparr>],
     challenge_submissions = [],
     users = [\<lparr>u_id = 1, u_role = ''admin''\<rparr>, \<lparr>u_id = 2, u_role = ''user''\<rparr>,
              \<lparr>u_id = 3, u_role = ''user''\<rparr>, \<lparr>u_id = 4, u_role = ''user''\<rparr>],
     posts_seq = 1, challenges_seq = 2\<rparr>"
  by (simp add: completed_store_def picked_store_eq run_def CompleteChallenge_def
      complete_check_def sql_update_def sql_count_def)

lemma awarded_store_eq:
  "awarded_store = \<lparr>challenges =
      [\<lparr>c_id = 1, c_points = 50, c_assigned_to = None, c_status = Available,
        c_completed_by = None, c_completed_post_id = None, c_completed_at = None,
        c_start_date = None, c_end_date = None, c_challenge_type = ''exclusive''\<rparr>,
       \<lparr>c_id = 2, c_points = 30, c_assigned_to = None, c_status = Completed,
        c_completed_by = Some 3, c_completed_post_id = Some 2, c_completed_at = Some clock7,
        c_start_date = None, c_end_date = None, c_challenge_type = ''open''\<rparr>],
     posts =
      [\<lparr>p_id = 1, p_user_id = 2, p_challenge_id = 2, p_media_url = ''/uploads/posts/a.jpg'',
        p_media_type = ''photo'', p_caption = ''a'', p_revoked = False\<rparr>,
       \<lparr>p_id = 2, p_user_id = 3, p_challenge_id = 2, p_media_url = ''/uploads/posts/b.jpg'',
        p_media_type = ''photo'', p_caption = ''b'', p_revoked = False\<rparr>,
       \<lparr>p_id = 3, p_user_id = 4, p_challenge_id = 2, p_media_url = ''/uploads/posts/c.jpg'',
        p_media_type = ''photo'', p_caption = ''c'', p_revoked = False\<rparr>],
     challenge_submissions =
      [\<lparr>cs_challenge_id = 2, cs_user_id = 2, cs_post_id = 1\<rparr>,
       \<lparr>cs_challenge_id = 2, cs_user_id = 3, cs_post_id = 2\<rparr>,
       \<lparr>cs_challenge_id = 2, cs_user_id = 4, cs_post_id = 3\<rparr>],
     users = [\<lparr>u_id = 1, u_role = ''admin''\<rparr>, \<lparr>u_id = 2, u_role = ''user''\<rparr>,
              \<lparr>u_id = 3, u_role = ''user''\<rparr>, \<lparr>u_id = 4, u_role = ''user''\<rparr>],
     posts_seq = 3, challenges_seq = 2\<rparr>"
  by (simp add: awarded_store_def demo_store_eq run_def PickChallenge_def PickChallenge_at_def
      CompleteChallenge_def complete_check_def AwardChallenge_def
      sql_update_def sql_count_def in_window_def is_submission_def)

lemma joined_store_eq:
  "joined_store = \<lparr>challenges =
      [\<lparr>c_id = 1, c_points = 50, c_assigned_to = None, c_status = Available,
        c_completed_by = None, c_completed_post_id = None, c_completed_at = None,
        c_start_date = None, c_end_date = None, c_challenge_type = ''exclusive''\<rparr>,
       \<lparr>c_id = 2, c_points = 30, c_assigned_to = None, c_status = Available,
        c_completed_by = None, c_completed_post_id = None, c_completed_at = None,
        c_start_date = None, c_end_date = None, c_challenge_type = ''open''\<rparr>],
     posts = [],
     challenge_submissions = [\<lparr>cs_challenge_id = 2, cs_user_id = 2, cs_post_id = 0\<rparr>],
     users = [\<lparr>u_id = 1, u_role = ''admin''\<rparr>, \<lparr>u_id = 2, u_role = ''user''\<rparr>,
              \<lparr>u_id = 3, u_role = ''user''\<rparr>, \<lparr>u_id = 4, u_role = ''user''\<rparr>],
     posts_seq = 0, challenges_seq = 2\<rparr>"
  by (simp add: joined_store_def demo_store_eq run_def PickChallenge_def PickChallenge_at_def
      sql_count_def in_window_def is_submission_def)

lemma timed_store_eq:
  "timed_store = \<lparr>challenges =
      [\<lparr>c_id = 1, c_points = 50, c_assigned_to = None, c_status = Available,
        c_completed_by = None, c_completed_post_id = None, c_completed_at = None,
        c_start_date = Some ''2025-06-01 10:00:05+00:00'',
        c_end_date = Some ''2025-06-30 23:59:59+00:00'',
        c_challenge_type = ''exclusive''\<rparr>],
     posts = [], challenge_submissions = [],
     users = [\<lparr>u_id = 1, u_role = ''admin''\<rparr>, \<lparr>u_id = 2, u_role = ''user''\<rparr>,
              \<lparr>u_id = 3, u_role = ''user''\<rparr>, \<lparr>u_id = 4, u_role = ''user''\<rparr>],
     posts_seq = 0, challenges_seq = 1\<rparr>"
  by (simp add: timed_store_def empty_store_def run_def CreateChallenge_def)

lemma offset_store_eq:
  "offset_store = \<lparr>challenges =
      [\<lparr>c_id = 1, c_points = 50, c_assigned_to = None, c_status = Available,
        c_completed_by = None, c_completed_post_id = None, c_completed_at = None,
        c_start_date = Some ''2025-06-01 12:00:00+02:00'', c_end_date = None,
        c_challenge_type = ''exclusive''\<rparr>],
     posts = [], challenge_submissions = [],
     users = [\<lparr>u_id = 1, u_role = ''admin''\<rparr>, \<lparr>u_id = 2, u_role = ''user''\<rparr>,
              \<lparr>u_id = 3, u_role = ''user''\<rparr>, \<lparr>u_id = 4, u_role = ''user''\<rparr>],
     posts_seq = 0, challenges_seq = 1\<rparr>"
  by (simp add: offset_store_def empty_store_def run_def CreateChallenge_def)

lemma scenario_store_eq:
  "scenario_store = \<lparr>challenges =
      [\<lparr>c_id = 1, c_points = 50, c_assigned_to = Some 4, c_status = InProgress,
        c_completed_by = None, c_completed_post_id = None, c_completed_at = None,
        c_start_date = None, c_end_date = None, c_challenge_type = ''exclusive''\<rparr>,
       \<lparr>c_id = 2, c_points = 30, c_assigned_to = None, c_status = Available,
        c_completed_by = None, c_completed_post_id = None, c_completed_at = None,
        c_start_date = None, c_end_date = None, c_challenge_type = ''open''\<rparr>],
     posts = [\<lparr>p_id = 1, p_user_id = 3, p_challenge_id = 1,
        p_media_url = ''/uploads/posts/m.jpg'', p_media_type = ''photo'',
        p_caption = ''done'', p_revoked = True\<rparr>],
     challenge_submissions = [],
     users = [\<lparr>u_id = 1, u_role = ''admin''\<rparr>, \<lparr>u_id = 2, u_role = ''user''\<rparr>,
              \<lparr>u_id = 3, u_role = ''user''\<rparr>, \<lparr>u_id = 4, u_role = ''user''\<rparr>],
     posts_seq = 1, challenges_seq = 2\<rparr>"
  by (simp add: scenario_store_def demo_store_eq run_def PickChallenge_def PickChallenge_at_def
      pick_assign_def CancelChallenge_def CompleteChallenge_def complete_check_def
      RevokePostPoints_def has_challenge_def sql_update_def sql_count_def in_window_def)

section \<open>SQL statements and keys\<close>


lemma sql_delete_nothing: "\<forall>r\<in>set rows. \<not> P r \<Longrightarrow> sql_delete P rows = (0, rows)"
  by (induction rows) (auto simp: sql_delete_def)

lemma sql_count_zero: "(sql_count P rows = 0) = (\<forall>r\<in>set rows. \<not> P r)"
  by (simp add: sql_count_def filter_empty_conv)

text \<open>
  A column with a \<open>PRIMARY KEY\<close> or \<open>UNIQUE\<close> constraint holds no value twice: a
  \<open>SELECT\<close> on the key finds the one row that has it.
\<close>

lemma find_by_key:
  assumes "distinct (map key rows)" and "x \<in> set rows" and "P x"
    and "\<And>y. P y \<Longrightarrow> key y = key x"
  shows "find P rows = Some x"
  using assms
proof (induction rows)
  case Nil
  then show ?case by simp
next
  case (Cons r rows)
  show ?case
  proof (cases "r = x")
    case True
    with Cons.prems(3) have "P r" by simp
    with True show ?thesis by simp
  next
    case False
    with Cons.prems have x: "x \<in> set rows" by simp
    have "\<not> P r"
    proof
      assume "P r"
      then have "key r = key x" by (rule Cons.prems(4))
      moreover from x have "key x \<in> set (map key rows)" by simp
      ultimately show False using Cons.prems(1) by simp
    qed
    moreover have "find P rows = Some x"
    proof (rule Cons.IH)
      show "distinct (map key rows)" using Cons.prems(1) by simp
      show "x \<in> set rows" by (rule x)
      show "P x" by (rule Cons.prems(3))
      show "\<And>y. P y \<Longrightarrow> key y = key x" by (rule Cons.prems(4))
    qed
    ultimately show ?thesis by simp
  qed
qed

lemma same_key_same_row:
  "distinct (map key rows) \<Longrightarrow> x \<in> set rows \<Longrightarrow> y \<in> set rows \<Longrightarrow> key y = key x \<Longrightarrow> y = x"
  by (auto simp: distinct_map dest: inj_onD)

lemma find_Some_mem: "find P rows = Some x \<Longrightarrow> x \<in> set rows \<and> P x"
  by (induction rows) (auto split: if_splits)

section \<open>DeletePost and the completion references\<close>

text \<open>
  Claim C1 (a successful \<open>DeletePost\<close> leaves \<open>assignedTo\<close>, \<open>completedBy\<close> and
  \<open>completedPost\<close> all null and the status \<open>Available\<close>) does not hold of the handler:
  its \<open>UPDATE\<close> sets only \<open>assigned_to\<close> and \<open>status\<close>. User 2 deletes post 1, with
  which they completed the exclusive challenge 1: the post is gone, the challenge is
  \<open>Available\<close> and unassigned, and \<open>completed_by\<close>, \<open>completed_post_id\<close> and
  \<open>completed_at\<close> still hold the old completion. \<open>RevokePostPoints\<close> clears all of them.
\<close>

theorem DeletePost_leaves_completion_references:
  "c_status (hd (challenges completed_store)) = Completed \<and>
   DeletePost completed_store 1 2 =
     (DeleteOk,
      completed_store\<lparr>posts := [],
        challenges :=
          [\<lparr>c_id = 1, c_points = 50, c_assigned_to = None, c_status = Available,
            c_completed_by = Some 2, c_completed_post_id = Some 1, c_completed_at = Some clock6,
            c_start_date = None, c_end_date = None, c_challenge_type = ''exclusive''\<rparr>,
           \<lparr>c_id = 2, c_points = 30, c_assigned_to = None, c_status = Available,
            c_completed_by = None, c_completed_post_id = None, c_completed_at = None,
            c_start_date = None, c_end_date = None, c_challenge_type = ''open''\<rparr>]\<rparr>)"
  by (simp add: completed_store_eq DeletePost_def has_challenge_def sql_update_def sql_delete_def)

text \<open>
  Claim C9: the reset in \<open>DeletePost\<close> does not look at the post or at the challenge.
  For every post \<open>p\<close> of the requesting user whose challenge exists, whatever
  \<open>p_revoked p\<close>, the challenge's type, status and \<open>completed_by\<close> are, the request
  succeeds, removes the post, and sets every challenge row with the post's challenge id
  to \<open>Available\<close> and unassigned, leaving its other columns as they were: the completion
  of another user is undone.
\<close>

lemma DeletePost_found:
  assumes "distinct (map p_id (posts d))"
    and "p \<in> set (posts d)" and "p_user_id p = userID"
    and "c \<in> set (challenges d)" and "c_id c = p_challenge_id p"
  shows "DeletePost d (p_id p) userID =
           (DeleteOk,
            d\<lparr>posts := filter (\<lambda>q. p_id q \<noteq> p_id p) (posts d),
              challenges := map (\<lambda>x. if c_id x = p_challenge_id p
                                       then x\<lparr>c_assigned_to := None, c_status := Available\<rparr>
                                       else x) (challenges d)\<rparr>)"
proof -
  have hc: "has_challenge d p"
    using assms(4,5) by (auto simp: has_challenge_def find_None_iff)
  have "find (\<lambda>q. p_id q = p_id p \<and> p_user_id q = userID \<and> has_challenge d q) (posts d) = Some p"
    by (rule find_by_key [where key = p_id]) (use assms hc in auto)
  then show ?thesis
    by (simp add: DeletePost_def sql_update_def sql_delete_def)
qed

theorem DeletePost_reset_is_unconditional:
  assumes "distinct (map p_id (posts d))"
    and "p \<in> set (posts d)" and "p_user_id p = userID"
    and "c \<in> set (challenges d)" and "c_id c = p_challenge_id p"
  shows "DeletePost d (p_id p) userID =
           (DeleteOk,
            d\<lparr>posts := filter (\<lambda>q. p_id q \<noteq> p_id p) (posts d),
              challenges := map (\<lambda>x. if c_id x = p_challenge_id p
                                       then x\<lparr>c_assigned_to := None, c_status := Available\<rparr>
                                       else x) (challenges d)\<rparr>) \<and>
         c\<lparr>c_assigned_to := None, c_status := Available\<rparr> \<in>
           set (challenges (snd (DeletePost d (p_id p) userID))) \<and>
         (\<forall>x\<in>set (challenges (snd (DeletePost d (p_id p) userID))).
            c_id x = p_challenge_id p \<longrightarrow> c_status x = Available \<and> c_assigned_to x = None)"
proof -
  note eq = DeletePost_found [OF assms]
  have mem: "c\<lparr>c_assigned_to := None, c_status := Available\<rparr> \<in>
           set (challenges (snd (DeletePost d (p_id p) userID)))"
    using assms(4,5) by (force simp: eq)
  have all: "\<forall>x\<in>set (challenges (snd (DeletePost d (p_id p) userID))).
            c_id x = p_challenge_id p \<longrightarrow> c_status x = Available \<and> c_assigned_to x = None"
    by (auto simp: eq)
  from eq mem all show ?thesis by blast
qed

text \<open>
  User 2, who submitted post 1 to the open challenge 2 and did not win it, deletes that
  post: challenge 2, completed by user 3, is \<open>Available\<close> again.
\<close>

theorem DeletePost_reset_is_unconditional_witness:
  "c_status \<lparr>c_id = 2, c_points = 30, c_assigned_to = None, c_status = Completed,
        c_completed_by = Some 3, c_completed_post_id = Some 2, c_completed_at = Some clock7,
        c_start_date = None, c_end_date = None, c_challenge_type = ''open''\<rparr> = Completed \<and>
   fst (DeletePost awarded_store 1 2) = DeleteOk \<and>
   \<lparr>c_id = 2, c_points = 30, c_assigned_to = None, c_status = Available,
        c_completed_by = Some 3, c_completed_post_id = Some 2, c_completed_at = Some clock7,
        c_start_date = None, c_end_date = None, c_challenge_type = ''open''\<rparr>
     \<in> set (challenges (snd (DeletePost awarded_store 1 2)))"
  using DeletePost_reset_is_unconditional [of awarded_store
      "\<lparr>p_id = 1, p_user_id = 2, p_challenge_id = 2, p_media_url = ''/uploads/posts/a.jpg'',
        p_media_type = ''photo'', p_caption = ''a'', p_revoked = False\<rparr>" 2
      "\<lparr>c_id = 2, c_points = 30, c_assigned_to = None, c_status = Completed,
        c_completed_by = Some 3, c_completed_post_id = Some 2, c_completed_at = Some clock7,
        c_start_date = None, c_end_date = None, c_challenge_type = ''open''\<rparr>"]
  by (simp add: awarded_store_eq)

section \<open>PickChallenge on an exclusive challenge\<close>

text \<open>
  Claim C2 (a \<open>Pick\<close> by the user the exclusive challenge is assigned to answers
  \<open>AlreadyAssigned\<close>) does not hold of the handler: the status test comes first.
  User 2 holds challenge 1, which is \<open>InProgress\<close>, and picks it again: the answer is
  the generic "not available", and the store is unchanged.
\<close>

theorem Pick_by_assignee_not_available:
  "challenges picked_store =
     [\<lparr>c_id = 1, c_points = 50, c_assigned_to = Some 2, c_status = InProgress,
       c_completed_by = None, c_completed_post_id = None, c_completed_at = None,
       c_start_date = None, c_end_date = None, c_challenge_type = ''exclusive''\<rparr>,
      \<lparr>c_id = 2, c_points = 30, c_assigned_to = None, c_status = Available,
       c_completed_by = None, c_completed_post_id = None, c_completed_at = None,
       c_start_date = None, c_end_date = None, c_challenge_type = ''open''\<rparr>] \<and>
   PickChallenge picked_store clock6 1 2 = (PickNotAvailable, picked_store)"
  by (simp add: picked_store_eq PickChallenge_def PickChallenge_at_def in_window_def)



text \<open>
  The window is the comparison of text that SQLite makes. A challenge whose start date
  the driver wrote as \<open>10:00:05+00:00\<close> is not yet found in the second 10:00:05 and is
  found from 10:00:06 on; its end date \<open>23:59:59+00:00\<close> still admits the second 23:59:59.
  A start date written as \<open>12:00:00+02:00\<close>, which is 10:00:00 UTC, is compared by its
  wall clock: at 11:00:00 UTC the challenge is not found.
\<close>

lemma Pick_window_is_text_comparison:
  "PickChallenge timed_store ''2025-06-01 10:00:05'' 1 2 = (PickNotFound, timed_store) \<and>
   fst (PickChallenge timed_store ''2025-06-01 10:00:06'' 1 2) = PickOk \<and>
   fst (PickChallenge timed_store ''2025-06-30 23:59:59'' 1 2) = PickOk \<and>
   PickChallenge timed_store ''2025-07-01 00:00:00'' 1 2 = (PickNotFound, timed_store) \<and>
   PickChallenge offset_store ''2025-06-01 11:00:00'' 1 2 = (PickNotFound, offset_store) \<and>
   fst (PickChallenge offset_store ''2025-06-01 12:00:01'' 1 2) = PickOk"
  by (simp add: timed_store_eq offset_store_eq PickChallenge_def PickChallenge_at_def
      pick_assign_def sql_update_def sql_count_def in_window_def)

text \<open>
  The statements of two requests can interleave. User 2 sends the request twice: the
  first \<open>SELECT\<close> of the second request still sees challenge 1 available, its
  \<open>SELECT COUNT(*)\<close> already sees the assignment made by the first request, and the
  answer is "already assigned".
\<close>

lemma Pick_overlapping_requests:
  "PickChallenge_at demo_store clock5 picked_store picked_store clock6 1 2 =
     (PickAlreadyAssigned, picked_store)"
  by (simp add: demo_store_eq picked_store_eq PickChallenge_at_def sql_count_def in_window_def)



section \<open>Submission rows\<close>

lemma Pick_submissions:
  "set (challenge_submissions d) \<subseteq> set (challenge_submissions (snd (PickChallenge d now c u)))"
  by (auto simp: PickChallenge_def PickChallenge_at_def pick_assign_def sql_update_def
      split: option.splits)

lemma Cancel_submissions:
  "s \<in> set (challenge_submissions d) \<Longrightarrow> \<not> (is_submission c u s \<and> cs_post_id s = 0) \<Longrightarrow>
   s \<in> set (challenge_submissions (snd (CancelChallenge d c u)))"
  by (auto simp: CancelChallenge_def sql_update_def sql_delete_def split: option.splits)

lemma update_post_id_keeps_key:
  assumes "s \<in> set rows"
  shows "\<exists>s'\<in>set (snd (sql_update P (\<lambda>s. s\<lparr>cs_post_id := n\<rparr>) rows)).
           cs_challenge_id s' = cs_challenge_id s \<and> cs_user_id s' = cs_user_id s"
proof -
  let ?s' = "if P s then s\<lparr>cs_post_id := n\<rparr> else s"
  have "?s' \<in> set (snd (sql_update P (\<lambda>s. s\<lparr>cs_post_id := n\<rparr>) rows))"
    using assms by (force simp: sql_update_def)
  moreover have "cs_challenge_id ?s' = cs_challenge_id s \<and> cs_user_id ?s' = cs_user_id s"
    by simp
  ultimately show ?thesis by blast
qed

lemma Complete_submissions:
  assumes "s \<in> set (challenge_submissions d)"
  shows "\<exists>s'\<in>set (challenge_submissions (snd (CompleteChallenge d now c u m t cap))).
      cs_challenge_id s' = cs_challenge_id s \<and> cs_user_id s' = cs_user_id s"
proof -
  have keep: "\<exists>s'\<in>set (challenge_submissions d).
      cs_challenge_id s' = cs_challenge_id s \<and> cs_user_id s' = cs_user_id s"
    using assms by blast
  show ?thesis
    using keep update_post_id_keeps_key [OF assms, of "is_submission c u" "posts_seq d + 1"]
    by (simp add: CompleteChallenge_def Let_def split: option.splits)
qed

lemma Award_submissions:
  "challenge_submissions (snd (AwardChallenge d now c w)) = challenge_submissions d"
  by (simp add: AwardChallenge_def split: option.splits)

lemma Unassign_submissions:
  "challenge_submissions (snd (UnassignChallenge d c)) = challenge_submissions d"
  by (simp add: UnassignChallenge_def split: prod.splits)

lemma Revoke_submissions:
  "challenge_submissions (snd (RevokePostPoints d p)) = challenge_submissions d"
  by (simp add: RevokePostPoints_def split: option.splits)

lemma Delete_submissions:
  "challenge_submissions (snd (DeletePost d p u)) = challenge_submissions d"
  by (simp add: DeletePost_def split: option.splits)

lemma Create_submissions:
  "challenge_submissions (snd (CreateChallenge d pts sd ed ty)) = challenge_submissions d"
  by (simp add: CreateChallenge_def Let_def)

text \<open>
  Claim C3, as stated (\<open>RevokePoints\<close> on a post of an open challenge deletes the
  challenge's \<open>Submission\<close> rows), fails: the administrator revokes post 2 of the
  awarded open challenge 2, and all three submission rows are still there.
\<close>

theorem Revoke_deletes_submissions_counterexample:
  "fst (RevokePostPoints awarded_store 2) = RevokeOk \<and>
   challenge_submissions (snd (RevokePostPoints awarded_store 2)) =
     [\<lparr>cs_challenge_id = 2, cs_user_id = 2, cs_post_id = 1\<rparr>,
      \<lparr>cs_challenge_id = 2, cs_user_id = 3, cs_post_id = 2\<rparr>,
      \<lparr>cs_challenge_id = 2, cs_user_id = 4, cs_post_id = 3\<rparr>]"
  by (simp add: awarded_store_eq RevokePostPoints_def has_challenge_def sql_update_def)

text \<open>
  Claim C3, amended: \<open>RevokePostPoints\<close> leaves the table of submissions exactly as it
  was. A submission row persists (with its challenge and user; \<open>CompleteChallenge\<close>
  only fills in its post reference) through every request, also after the challenge
  is completed, except a \<open>Cancel\<close> by its own user while its post reference is unset.
\<close>

theorem Revoke_keeps_submissions:
  "challenge_submissions (snd (RevokePostPoints d postID)) = challenge_submissions d \<and>
   (s \<in> set (challenge_submissions d) \<and>
    (cs_post_id s \<noteq> 0 \<or> r \<noteq> CancelReq (cs_challenge_id s) (cs_user_id s)) \<longrightarrow>
    (\<exists>s'\<in>set (challenge_submissions (handle d r)).
        cs_challenge_id s' = cs_challenge_id s \<and> cs_user_id s' = cs_user_id s))"
proof (intro conjI impI)
  show "challenge_submissions (snd (RevokePostPoints d postID)) = challenge_submissions d"
    by (rule Revoke_submissions)
next
  assume a: "s \<in> set (challenge_submissions d) \<and>
    (cs_post_id s \<noteq> 0 \<or> r \<noteq> CancelReq (cs_challenge_id s) (cs_user_id s))"
  then have s: "s \<in> set (challenge_submissions d)" by simp
  have "s \<in> set (challenge_submissions (handle d r)) \<or>
        (\<exists>s'\<in>set (challenge_submissions (handle d r)).
           cs_challenge_id s' = cs_challenge_id s \<and> cs_user_id s' = cs_user_id s)"
  proof (cases r)
    case (PickReq now c u)
    then show ?thesis using s Pick_submissions [of d now c u] by auto
  next
    case (CancelReq c u)
    with a have "\<not> (is_submission c u s \<and> cs_post_id s = 0)"
      by (auto simp: is_submission_def)
    then show ?thesis using s CancelReq Cancel_submissions by simp
  next
    case (CompleteReq now c u m t cap)
    then show ?thesis using s Complete_submissions by simp
  next
    case (AwardReq now c w)
    then show ?thesis using s by (simp add: Award_submissions)
  next
    case (UnassignReq c)
    then show ?thesis using s by (simp add: Unassign_submissions)
  next
    case (RevokeReq p)
    then show ?thesis using s by (simp add: Revoke_submissions)
  next
    case (DeleteReq p u)
    then show ?thesis using s by (simp add: Delete_submissions)
  next
    case (CreateReq pts sd ed ty)
    then show ?thesis using s by (simp add: Create_submissions)
  qed
  then show "\<exists>s'\<in>set (challenge_submissions (handle d r)).
        cs_challenge_id s' = cs_challenge_id s \<and> cs_user_id s' = cs_user_id s"
    by auto
qed

theorem Revoke_keeps_submissions_witness:
  "\<lparr>cs_challenge_id = 2, cs_user_id = 2, cs_post_id = 1\<rparr> \<in> set (challenge_submissions awarded_store) \<and>
   challenge_submissions (snd (RevokePostPoints awarded_store 2)) =
     challenge_submissions awarded_store \<and>
   (\<exists>s'\<in>set (challenge_submissions (handle awarded_store (RevokeReq 2))).
      cs_challenge_id s' = 2 \<and> cs_user_id s' = 2)"
  using Revoke_keeps_submissions [of awarded_store 2
      "\<lparr>cs_challenge_id = 2, cs_user_id = 2, cs_post_id = 1\<rparr>" "RevokeReq 2"]
  by (simp add: awarded_store_eq)

text \<open>
  Claim C7: on an open challenge \<open>CancelChallenge\<close> deletes exactly the caller's
  submission rows whose post reference is still \<open>0\<close>. If there is none (the caller has
  submitted already, or never joined) the answer is \<open>NotYours\<close> and the store is
  unchanged; in every case a row with a post reference, and a row of another user or
  challenge, stays.
\<close>

theorem Cancel_open_only_unsubmitted:
  assumes "find (\<lambda>c. c_id c = challengeID) (challenges d) = Some c"
    and "c_challenge_type c = ''open''"
  shows "CancelChallenge d challengeID userID =
           (if \<exists>s\<in>set (challenge_submissions d).
                  is_submission challengeID userID s \<and> cs_post_id s = 0
            then (CancelOk,
                  d\<lparr>challenge_submissions :=
                      filter (\<lambda>s. \<not> (is_submission challengeID userID s \<and> cs_post_id s = 0))
                        (challenge_submissions d)\<rparr>)
            else (CancelNotYours, d)) \<and>
         (\<forall>s\<in>set (challenge_submissions d).
            cs_post_id s \<noteq> 0 \<or> \<not> is_submission challengeID userID s \<longrightarrow>
            s \<in> set (challenge_submissions (snd (CancelChallenge d challengeID userID))))"
proof (cases "\<exists>s\<in>set (challenge_submissions d).
                  is_submission challengeID userID s \<and> cs_post_id s = 0")
  case True
  then have "sql_count (\<lambda>s. is_submission challengeID userID s \<and> cs_post_id s = 0)
               (challenge_submissions d) \<noteq> 0"
    by (simp add: sql_count_zero)
  then have "CancelChallenge d challengeID userID =
      (CancelOk, d\<lparr>challenge_submissions :=
          filter (\<lambda>s. \<not> (is_submission challengeID userID s \<and> cs_post_id s = 0))
            (challenge_submissions d)\<rparr>)"
    using assms by (simp add: CancelChallenge_def sql_delete_def sql_count_def)
  with True show ?thesis by auto
next
  case False
  then have "sql_delete (\<lambda>s. is_submission challengeID userID s \<and> cs_post_id s = 0)
               (challenge_submissions d) = (0, challenge_submissions d)"
    by (intro sql_delete_nothing) blast
  then have "CancelChallenge d challengeID userID = (CancelNotYours, d)"
    using assms by (simp add: CancelChallenge_def)
  with False show ?thesis by simp
qed

text \<open>
  User 2 leaves challenge 2 before submitting; after submitting they cannot; user 3,
  who never joined, cannot either.
\<close>

theorem Cancel_open_only_unsubmitted_witness:
  "CancelChallenge joined_store 2 2 = (CancelOk, joined_store\<lparr>challenge_submissions := []\<rparr>) \<and>
   CancelChallenge awarded_store 2 2 = (CancelNotYours, awarded_store) \<and>
   CancelChallenge joined_store 2 3 = (CancelNotYours, joined_store)"
  using Cancel_open_only_unsubmitted [of 2 joined_store
      "\<lparr>c_id = 2, c_points = 30, c_assigned_to = None, c_status = Available,
        c_completed_by = None, c_completed_post_id = None, c_completed_at = None,
        c_start_date = None, c_end_date = None, c_challenge_type = ''open''\<rparr>" 2]
    Cancel_open_only_unsubmitted [of 2 awarded_store
      "\<lparr>c_id = 2, c_points = 30, c_assigned_to = None, c_status = Completed,
        c_completed_by = Some 3, c_completed_post_id = Some 2, c_completed_at = Some clock7,
        c_start_date = None, c_end_date = None, c_challenge_type = ''open''\<rparr>" 2]
    Cancel_open_only_unsubmitted [of 2 joined_store
      "\<lparr>c_id = 2, c_points = 30, c_assigned_to = None, c_status = Available,
        c_completed_by = None, c_completed_post_id = None, c_completed_at = None,
        c_start_date = None, c_end_date = None, c_challenge_type = ''open''\<rparr>" 3]
  by (simp add: joined_store_eq awarded_store_eq is_submission_def)

text \<open>
  Claim C6: on an open challenge, for a user whose submission row has an unset post
  reference, \<open>CompleteChallenge\<close> appends a post with the next id, writes that id into
  the user's submission, reports 0 points earned (awaiting review) and changes nothing
  else: the challenge rows, with status, \<open>completed_by\<close> and \<open>completed_post_id\<close>, are
  as before.
\<close>

theorem Complete_open_awaits_review:
  assumes "find (\<lambda>c. c_id c = challengeID) (challenges d) = Some c"
    and "c_challenge_type c = ''open''"
    and "find (is_submission challengeID userID) (challenge_submissions d) = Some s"
    and "cs_post_id s = 0"
  shows "CompleteChallenge d now challengeID userID mediaURL mediaType caption =
           (CompleteAwaitingReview (posts_seq d + 1) 0,
            d\<lparr>posts := posts d @
                 [\<lparr>p_id = posts_seq d + 1, p_user_id = userID, p_challenge_id = challengeID,
                   p_media_url = mediaURL, p_media_type = mediaType, p_caption = caption,
                   p_revoked = False\<rparr>],
              posts_seq := posts_seq d + 1,
              challenge_submissions :=
                 map (\<lambda>s. if is_submission challengeID userID s
                           then s\<lparr>cs_post_id := posts_seq d + 1\<rparr> else s)
                   (challenge_submissions d)\<rparr>) \<and>
         challenges (snd (CompleteChallenge d now challengeID userID mediaURL mediaType caption))
           = challenges d \<and>
         s\<lparr>cs_post_id := posts_seq d + 1\<rparr> \<in> set (challenge_submissions
           (snd (CompleteChallenge d now challengeID userID mediaURL mediaType caption)))"
proof -
  from assms(3) have s: "s \<in> set (challenge_submissions d)" "is_submission challengeID userID s"
    using find_Some_mem by fastforce+
  then have "sql_count (is_submission challengeID userID) (challenge_submissions d) \<noteq> 0"
    by (auto simp: sql_count_zero)
  then have chk: "complete_check d c challengeID userID = None"
    using assms by (simp add: complete_check_def)
  have eq: "CompleteChallenge d now challengeID userID mediaURL mediaType caption =
           (CompleteAwaitingReview (posts_seq d + 1) 0,
            d\<lparr>posts := posts d @
                 [\<lparr>p_id = posts_seq d + 1, p_user_id = userID, p_challenge_id = challengeID,
                   p_media_url = mediaURL, p_media_type = mediaType, p_caption = caption,
                   p_revoked = False\<rparr>],
              posts_seq := posts_seq d + 1,
              challenge_submissions :=
                 map (\<lambda>s. if is_submission challengeID userID s
                           then s\<lparr>cs_post_id := posts_seq d + 1\<rparr> else s)
                   (challenge_submissions d)\<rparr>)"
    using assms(1,2) chk by (simp add: CompleteChallenge_def Let_def sql_update_def)
  have mem: "s\<lparr>cs_post_id := posts_seq d + 1\<rparr> \<in> set (challenge_submissions
           (snd (CompleteChallenge d now challengeID userID mediaURL mediaType caption)))"
    using s by (force simp: eq)
  from eq mem show ?thesis by simp
qed

theorem Complete_open_awaits_review_witness:
  "CompleteChallenge joined_store clock6 2 2 ''/uploads/posts/a.jpg'' ''photo'' ''a'' =
     (CompleteAwaitingReview 1 0,
      joined_store\<lparr>posts :=
          [\<lparr>p_id = 1, p_user_id = 2, p_challenge_id = 2, p_media_url = ''/uploads/posts/a.jpg'',
            p_media_type = ''photo'', p_caption = ''a'', p_revoked = False\<rparr>],
        posts_seq := 1,
        challenge_submissions := [\<lparr>cs_challenge_id = 2, cs_user_id = 2, cs_post_id = 1\<rparr>]\<rparr>) \<and>
   challenges (snd (CompleteChallenge joined_store clock6 2 2 ''/uploads/posts/a.jpg'' ''photo'' ''a''))
     = challenges joined_store"
  using Complete_open_awaits_review [of 2 joined_store
      "\<lparr>c_id = 2, c_points = 30, c_assigned_to = None, c_status = Available,
        c_completed_by = None, c_completed_post_id = None, c_completed_at = None,
        c_start_date = None, c_end_date = None, c_challenge_type = ''open''\<rparr>" 2
      "\<lparr>cs_challenge_id = 2, cs_user_id = 2, cs_post_id = 0\<rparr>"
      clock6 "''/uploads/posts/a.jpg''" "''photo''" "''a''"]
  by (simp add: joined_store_eq is_submission_def)

section \<open>What every request preserves\<close>

text \<open>
  Every handler keeps the ids and the types of the challenge rows; \<open>CreateChallenge\<close>
  appends a row with a new id.
\<close>

lemma in_sql_update:
  "y \<in> set (snd (sql_update P f rows)) \<Longrightarrow>
   (y \<in> set rows \<and> \<not> P y) \<or> (\<exists>x\<in>set rows. P x \<and> y = f x)"
  by (auto simp: sql_update_def split: if_splits)

lemma Pick_id_type:
  "map id_type (challenges (snd (PickChallenge d now c u))) = map id_type (challenges d)"
  by (simp add: PickChallenge_def PickChallenge_at_def pick_assign_def sql_update_def
      id_type_def split: option.splits)

lemma Cancel_id_type:
  "map id_type (challenges (snd (CancelChallenge d c u))) = map id_type (challenges d)"
  by (simp add: CancelChallenge_def sql_update_def sql_delete_def id_type_def
      split: option.splits)

lemma Complete_id_type:
  "map id_type (challenges (snd (CompleteChallenge d now c u m t cap))) =
   map id_type (challenges d)"
  by (simp add: CompleteChallenge_def Let_def sql_update_def id_type_def split: option.splits)

lemma Award_id_type:
  "map id_type (challenges (snd (AwardChallenge d now c w))) = map id_type (challenges d)"
  by (simp add: AwardChallenge_def sql_update_def id_type_def split: option.splits)

lemma Unassign_id_type:
  "map id_type (challenges (snd (UnassignChallenge d c))) = map id_type (challenges d)"
  by (simp add: UnassignChallenge_def sql_update_def id_type_def)

lemma Revoke_id_type:
  "map id_type (challenges (snd (RevokePostPoints d p))) = map id_type (challenges d)"
  by (simp add: RevokePostPoints_def sql_update_def id_type_def split: option.splits)

lemma Delete_id_type:
  "map id_type (challenges (snd (DeletePost d p u))) = map id_type (challenges d)"
  by (simp add: DeletePost_def sql_update_def id_type_def split: option.splits)

lemma handle_id_type:
  "(\<forall>pts sd ed ty. r \<noteq> CreateReq pts sd ed ty) \<Longrightarrow>
   map id_type (challenges (handle d r)) = map id_type (challenges d)"
  by (cases r) (simp_all add: Pick_id_type Cancel_id_type Complete_id_type Award_id_type
      Unassign_id_type Revoke_id_type Delete_id_type)

lemma handle_seq:
  "(\<forall>pts sd ed ty. r \<noteq> CreateReq pts sd ed ty) \<Longrightarrow>
   challenges_seq (handle d r) = challenges_seq d"
  by (cases r) (simp_all add: PickChallenge_def PickChallenge_at_def pick_assign_def
      CancelChallenge_def CompleteChallenge_def AwardChallenge_def UnassignChallenge_def
      RevokePostPoints_def DeletePost_def Let_def sql_update_def sql_delete_def
      split: option.splits)

lemma id_of_id_type: "map c_id cs = map fst (map id_type cs)"
  by (simp add: id_type_def)

lemma Create_challenges:
  "challenges (snd (CreateChallenge d pts sd ed ty)) = challenges d \<and>
     challenges_seq (snd (CreateChallenge d pts sd ed ty)) = challenges_seq d \<or>
   (\<exists>c. challenges (snd (CreateChallenge d pts sd ed ty)) = challenges d @ [c] \<and>
        c_id c = challenges_seq d + 1 \<and> c_assigned_to c = None \<and> c_status c = Available \<and>
        challenges_seq (snd (CreateChallenge d pts sd ed ty)) = challenges_seq d + 1)"
  by (simp add: CreateChallenge_def Let_def)

lemma Pick_sub_keys:
  "distinct (map sub_key (challenge_submissions d)) \<Longrightarrow>
   distinct (map sub_key (challenge_submissions (snd (PickChallenge d now c u))))"
  by (auto simp: PickChallenge_def PickChallenge_at_def pick_assign_def sql_update_def
      sql_count_zero is_submission_def sub_key_def split: option.splits)

lemma Cancel_sub_keys:
  "distinct (map sub_key (challenge_submissions d)) \<Longrightarrow>
   distinct (map sub_key (challenge_submissions (snd (CancelChallenge d c u))))"
  by (auto simp: CancelChallenge_def sql_update_def sql_delete_def distinct_map_filter
      split: option.splits)

lemma Complete_sub_keys:
  "map sub_key (challenge_submissions (snd (CompleteChallenge d now c u m t cap))) =
   map sub_key (challenge_submissions d)"
  by (simp add: CompleteChallenge_def Let_def sql_update_def sub_key_def split: option.splits)

lemma handle_sub_keys:
  "distinct (map sub_key (challenge_submissions d)) \<Longrightarrow>
   distinct (map sub_key (challenge_submissions (handle d r)))"
  by (cases r) (simp_all add: Pick_sub_keys Cancel_sub_keys Complete_sub_keys
      Award_submissions Unassign_submissions Revoke_submissions Delete_submissions
      Create_submissions)

lemma store_ok_handle:
  assumes "store_ok d"
  shows "store_ok (handle d r)"
proof (cases "\<exists>pts sd ed ty. r = CreateReq pts sd ed ty")
  case False
  then have nc: "\<forall>pts sd ed ty. r \<noteq> CreateReq pts sd ed ty" by simp
  have ids: "map c_id (challenges (handle d r)) = map c_id (challenges d)"
    by (simp only: id_of_id_type handle_id_type [OF nc])
  have seq: "challenges_seq (handle d r) = challenges_seq d"
    by (rule handle_seq [OF nc])
  have "\<forall>c\<in>set (challenges (handle d r)). c_id c \<le> challenges_seq d"
  proof
    fix c assume "c \<in> set (challenges (handle d r))"
    then have "c_id c \<in> set (map c_id (challenges (handle d r)))" by simp
    then have "c_id c \<in> set (map c_id (challenges d))" by (simp only: ids)
    then obtain x where "x \<in> set (challenges d)" and "c_id x = c_id c" by auto
    with assms show "c_id c \<le> challenges_seq d" by (auto simp: store_ok_def)
  qed
  moreover have "distinct (map c_id (challenges (handle d r)))"
    using assms by (simp add: ids store_ok_def)
  moreover have "distinct (map (\<lambda>s. (cs_challenge_id s, cs_user_id s))
      (challenge_submissions (handle d r)))"
    using assms handle_sub_keys [of d r] by (simp add: store_ok_def sub_key_def [abs_def])
  ultimately show ?thesis by (simp add: store_ok_def seq)
next
  case True
  then obtain pts sd ed ty where r: "r = CreateReq pts sd ed ty" by blast
  from assms have le: "\<forall>c\<in>set (challenges d). c_id c \<le> challenges_seq d"
    and dist: "distinct (map c_id (challenges d))"
    by (simp_all add: store_ok_def)
  have fresh: "challenges_seq d + 1 \<notin> set (map c_id (challenges d))"
  proof
    assume "challenges_seq d + 1 \<in> set (map c_id (challenges d))"
    then obtain x where "x \<in> set (challenges d)" and "c_id x = challenges_seq d + 1" by auto
    with le show False by fastforce
  qed
  have le': "\<forall>c\<in>set (challenges d). c_id c \<le> challenges_seq d + 1"
    using le by fastforce
  have subs: "distinct (map (\<lambda>s. (cs_challenge_id s, cs_user_id s))
      (challenge_submissions (handle d r)))"
    using assms by (simp add: r store_ok_def Create_submissions)
  from Create_challenges [of d pts sd ed ty] show ?thesis
  proof
    assume "challenges (snd (CreateChallenge d pts sd ed ty)) = challenges d \<and>
      challenges_seq (snd (CreateChallenge d pts sd ed ty)) = challenges_seq d"
    then show ?thesis using le dist subs by (simp add: r store_ok_def)
  next
    assume "\<exists>c. challenges (snd (CreateChallenge d pts sd ed ty)) = challenges d @ [c] \<and>
        c_id c = challenges_seq d + 1 \<and> c_assigned_to c = None \<and> c_status c = Available \<and>
        challenges_seq (snd (CreateChallenge d pts sd ed ty)) = challenges_seq d + 1"
    then obtain c where "challenges (snd (CreateChallenge d pts sd ed ty)) = challenges d @ [c]"
      and "c_id c = challenges_seq d + 1"
      and "challenges_seq (snd (CreateChallenge d pts sd ed ty)) = challenges_seq d + 1"
      by blast
    then show ?thesis using le' dist fresh subs by (simp add: r store_ok_def)
  qed
qed

subsection \<open>Assignment and status\<close>

lemma update_assignment_ok:
  assumes "\<forall>c\<in>set cs. assignment_ok c"
    and "\<And>x. x \<in> set cs \<Longrightarrow> P x \<Longrightarrow> assignment_ok (f x)"
  shows "\<forall>y\<in>set (snd (sql_update P f cs)). assignment_ok y"
  using assms in_sql_update [of _ P f cs] by blast

lemma Pick_assignment_ok:
  assumes ok: "store_ok d" and a: "\<forall>c\<in>set (challenges d). assignment_ok c"
  shows "\<forall>c\<in>set (challenges (snd (PickChallenge d now challengeID userID))). assignment_ok c"
proof (cases "find (\<lambda>c. c_id c = challengeID \<and> in_window c now) (challenges d)")
  case None
  then show ?thesis using a by (simp add: PickChallenge_def PickChallenge_at_def)
next
  case (Some c)
  then have c: "c \<in> set (challenges d)" "c_id c = challengeID"
    using find_Some_mem [OF Some] by simp_all
  show ?thesis
  proof (cases "c_status c = Available \<and> c_challenge_type c \<noteq> ''open''")
    case False
    then show ?thesis using a Some by (auto simp: PickChallenge_def PickChallenge_at_def)
  next
    case True
    have upd: "\<forall>y\<in>set (snd (sql_update
        (\<lambda>c. c_id c = challengeID \<and> c_assigned_to c = None \<and> c_status c = Available
              \<and> in_window c now)
        (\<lambda>c. c\<lparr>c_assigned_to := Some userID, c_status := InProgress\<rparr>)
        (challenges d))). assignment_ok y"
    proof (rule update_assignment_ok [OF a])
      fix x assume x: "x \<in> set (challenges d)"
        and "c_id x = challengeID \<and> c_assigned_to x = None \<and> c_status x = Available
              \<and> in_window x now"
      then have "x = c"
        using same_key_same_row [of c_id "challenges d" c x] ok c by (simp add: store_ok_def)
      with True show "assignment_ok (x\<lparr>c_assigned_to := Some userID, c_status := InProgress\<rparr>)"
        by (simp add: assignment_ok_def)
    qed
    show ?thesis
      using a Some True upd
      by (simp add: PickChallenge_def PickChallenge_at_def pick_assign_def split_beta)
  qed
qed

lemma Cancel_assignment_ok:
  assumes a: "\<forall>c\<in>set (challenges d). assignment_ok c"
  shows "\<forall>c\<in>set (challenges (snd (CancelChallenge d challengeID userID))). assignment_ok c"
proof -
  have "\<forall>y\<in>set (snd (sql_update
        (\<lambda>c. c_id c = challengeID \<and> c_assigned_to c = Some userID)
        (\<lambda>c. c\<lparr>c_assigned_to := None, c_status := Available\<rparr>)
        (challenges d))). assignment_ok y"
    by (rule update_assignment_ok [OF a]) (simp add: assignment_ok_def)
  then show ?thesis using a
    by (simp add: CancelChallenge_def sql_delete_def split_beta split: option.splits)
qed

lemma Complete_assignment_ok:
  assumes a: "\<forall>c\<in>set (challenges d). assignment_ok c"
  shows "\<forall>c\<in>set (challenges (snd (CompleteChallenge d now challengeID userID m t cap))).
           assignment_ok c"
proof -
  have "\<forall>y\<in>set (snd (sql_update (\<lambda>c. c_id c = challengeID)
        (\<lambda>c. c\<lparr>c_assigned_to := None, c_status := Completed,
                c_completed_by := Some userID, c_completed_post_id := Some (posts_seq d + 1),
                c_completed_at := Some now\<rparr>)
        (challenges d))). assignment_ok y"
    by (rule update_assignment_ok [OF a]) (simp add: assignment_ok_def)
  then show ?thesis using a
    by (simp add: CompleteChallenge_def Let_def split: option.splits)
qed

lemma Award_assignment_ok:
  assumes ok: "store_ok d" and a: "\<forall>c\<in>set (challenges d). assignment_ok c"
  shows "\<forall>c\<in>set (challenges (snd (AwardChallenge d now challengeID winner))). assignment_ok c"
proof (cases "find (\<lambda>c. c_id c = challengeID) (challenges d)")
  case None
  then show ?thesis using a by (simp add: AwardChallenge_def)
next
  case (Some c)
  then have c: "c \<in> set (challenges d)" "c_id c = challengeID"
    using find_Some_mem [OF Some] by simp_all
  show ?thesis
  proof (cases "c_challenge_type c = ''open''")
    case False
    then show ?thesis using a Some by (simp add: AwardChallenge_def)
  next
    case True
    with a c have un: "c_assigned_to c = None" by (simp add: assignment_ok_def)
    have "\<forall>y\<in>set (snd (sql_update (\<lambda>c. c_id c = challengeID)
        (\<lambda>c. c\<lparr>c_status := Completed, c_completed_by := Some winner,
                c_completed_post_id := Some p, c_completed_at := Some now\<rparr>)
        (challenges d))). assignment_ok y" for p
    proof (rule update_assignment_ok [OF a])
      fix x assume x: "x \<in> set (challenges d)" and "c_id x = challengeID"
      then have "x = c"
        using same_key_same_row [of c_id "challenges d" c x] ok c by (simp add: store_ok_def)
      with un show "assignment_ok (x\<lparr>c_status := Completed, c_completed_by := Some winner,
                c_completed_post_id := Some p, c_completed_at := Some now\<rparr>)"
        by (simp add: assignment_ok_def)
    qed
    then show ?thesis using a Some
      by (simp add: AwardChallenge_def split: option.splits)
  qed
qed

lemma Unassign_assignment_ok:
  assumes a: "\<forall>c\<in>set (challenges d). assignment_ok c"
  shows "\<forall>c\<in>set (challenges (snd (UnassignChallenge d challengeID))). assignment_ok c"
proof -
  have "\<forall>y\<in>set (snd (sql_update (\<lambda>c. c_id c = challengeID \<and> c_status c = InProgress)
        (\<lambda>c. c\<lparr>c_assigned_to := None, c_status := Available\<rparr>)
        (challenges d))). assignment_ok y"
    by (rule update_assignment_ok [OF a]) (simp add: assignment_ok_def)
  then show ?thesis
    by (simp add: UnassignChallenge_def split_beta)
qed

lemma Revoke_assignment_ok:
  assumes a: "\<forall>c\<in>set (challenges d). assignment_ok c"
  shows "\<forall>c\<in>set (challenges (snd (RevokePostPoints d postID))). assignment_ok c"
proof -
  have "\<forall>y\<in>set (snd (sql_update (\<lambda>c. c_id c = k)
        (\<lambda>c. c\<lparr>c_assigned_to := None, c_status := Available,
                c_completed_by := None, c_completed_post_id := None,
                c_completed_at := None\<rparr>)
        (challenges d))). assignment_ok y" for k
    by (rule update_assignment_ok [OF a]) (simp add: assignment_ok_def)
  then show ?thesis using a
    by (simp add: RevokePostPoints_def split: option.splits)
qed

lemma Delete_assignment_ok:
  assumes a: "\<forall>c\<in>set (challenges d). assignment_ok c"
  shows "\<forall>c\<in>set (challenges (snd (DeletePost d postID userID))). assignment_ok c"
proof -
  have "\<forall>y\<in>set (snd (sql_update (\<lambda>c. c_id c = k)
        (\<lambda>c. c\<lparr>c_assigned_to := None, c_status := Available\<rparr>)
        (challenges d))). assignment_ok y" for k
    by (rule update_assignment_ok [OF a]) (simp add: assignment_ok_def)
  then show ?thesis using a
    by (simp add: DeletePost_def split: option.splits)
qed

lemma Create_assignment_ok:
  assumes a: "\<forall>c\<in>set (challenges d). assignment_ok c"
  shows "\<forall>c\<in>set (challenges (snd (CreateChallenge d pts sd ed ty))). assignment_ok c"
proof -
  from Create_challenges [of d pts sd ed ty] show ?thesis
  proof
    assume "challenges (snd (CreateChallenge d pts sd ed ty)) = challenges d \<and>
      challenges_seq (snd (CreateChallenge d pts sd ed ty)) = challenges_seq d"
    then show ?thesis using a by simp
  next
    assume "\<exists>c. challenges (snd (CreateChallenge d pts sd ed ty)) = challenges d @ [c] \<and>
        c_id c = challenges_seq d + 1 \<and> c_assigned_to c = None \<and> c_status c = Available \<and>
        challenges_seq (snd (CreateChallenge d pts sd ed ty)) = challenges_seq d + 1"
    then obtain c where eq: "challenges (snd (CreateChallenge d pts sd ed ty)) = challenges d @ [c]"
      and "c_assigned_to c = None" and "c_status c = Available"
      by blast
    then have "assignment_ok c" by (simp add: assignment_ok_def)
    with a show ?thesis by (simp add: eq)
  qed
qed

lemma handle_assignment_ok:
  assumes ok: "store_ok d" and a: "\<forall>c\<in>set (challenges d). assignment_ok c"
  shows "\<forall>c\<in>set (challenges (handle d r)). assignment_ok c"
proof (cases r)
  case (PickReq now c u)
  show ?thesis unfolding PickReq handle.simps by (rule Pick_assignment_ok [OF ok a])
next
  case (CancelReq c u)
  show ?thesis unfolding CancelReq handle.simps by (rule Cancel_assignment_ok [OF a])
next
  case (CompleteReq now c u m t cap)
  show ?thesis unfolding CompleteReq handle.simps by (rule Complete_assignment_ok [OF a])
next
  case (AwardReq now c w)
  show ?thesis unfolding AwardReq handle.simps by (rule Award_assignment_ok [OF ok a])
next
  case (UnassignReq c)
  show ?thesis unfolding UnassignReq handle.simps by (rule Unassign_assignment_ok [OF a])
next
  case (RevokeReq p)
  show ?thesis unfolding RevokeReq handle.simps by (rule Revoke_assignment_ok [OF a])
next
  case (DeleteReq p u)
  show ?thesis unfolding DeleteReq handle.simps by (rule Delete_assignment_ok [OF a])
next
  case (CreateReq pts sd ed ty)
  show ?thesis unfolding CreateReq handle.simps by (rule Create_assignment_ok [OF a])
qed

lemma run_invariant:
  "store_ok d \<Longrightarrow> \<forall>c\<in>set (challenges d). assignment_ok c \<Longrightarrow>
   store_ok (run d reqs) \<and> (\<forall>c\<in>set (challenges (run d reqs)). assignment_ok c)"
proof (induction reqs arbitrary: d)
  case Nil
  then show ?case by (simp add: run_def)
next
  case (Cons r reqs)
  have "run d (r # reqs) = run (handle d r) reqs" by (simp add: run_def)
  with Cons.IH [OF store_ok_handle [OF Cons.prems(1)]
      handle_assignment_ok [OF Cons.prems(1) Cons.prems(2)]]
  show ?case by simp
qed

text \<open>
  Claim C5 (invariant I1): start from a store whose challenges are all as
  \<open>CreateChallenge\<close> inserts them (\<open>Available\<close>, unassigned), with the key constraints
  of the schema. After any sequence of pick, cancel, complete, unassign and revoke
  requests (and award, delete-post and create-challenge requests as well), by any users
  on any challenges and posts, every exclusive challenge has \<open>assigned_to\<close> set if and
  only if its status is \<open>InProgress\<close>.
\<close>

theorem assigned_iff_in_progress:
  assumes "distinct (map c_id (challenges d))"
    and "\<forall>c\<in>set (challenges d). c_id c \<le> challenges_seq d"
    and "distinct (map (\<lambda>s. (cs_challenge_id s, cs_user_id s)) (challenge_submissions d))"
    and "\<forall>c\<in>set (challenges d). c_status c = Available \<and> c_assigned_to c = None"
  shows "\<forall>c\<in>set (challenges (run d reqs)).
           c_challenge_type c = ''exclusive'' \<longrightarrow>
           (c_assigned_to c \<noteq> None \<longleftrightarrow> c_status c = InProgress)"
proof -
  have "store_ok d" using assms(1-3) by (simp add: store_ok_def)
  moreover have "\<forall>c\<in>set (challenges d). assignment_ok c"
    using assms(4) by (simp add: assignment_ok_def)
  ultimately have "\<forall>c\<in>set (challenges (run d reqs)). assignment_ok c"
    using run_invariant by blast
  then show ?thesis by (simp add: assignment_ok_def)
qed

theorem assigned_iff_in_progress_witness:
  "c_challenge_type (hd (challenges scenario_store)) = ''exclusive'' \<and>
   c_assigned_to (hd (challenges scenario_store)) = Some 4 \<and>
   ((c_assigned_to (hd (challenges scenario_store)) \<noteq> None) =
    (c_status (hd (challenges scenario_store)) = InProgress))"
proof -
  have "\<forall>c\<in>set (challenges scenario_store).
           c_challenge_type c = ''exclusive'' \<longrightarrow>
           (c_assigned_to c \<noteq> None \<longleftrightarrow> c_status c = InProgress)"
    unfolding scenario_store_def
    by (rule assigned_iff_in_progress) (simp_all add: demo_store_eq)
  then show ?thesis by (simp add: scenario_store_eq)
qed

text \<open>
  A consequence for \<open>PickChallenge\<close>: its test for a challenge that is already assigned
  to the caller comes after the test of the status, and an assigned challenge is never
  \<open>Available\<close>, so no sequence of requests that run one after the other reaches the
  "already assigned" answer.
\<close>

lemma Pick_never_AlreadyAssigned:
  assumes ok: "store_ok d" and a: "\<forall>c\<in>set (challenges d). assignment_ok c"
  shows "fst (PickChallenge d now challengeID userID) \<noteq> PickAlreadyAssigned"
proof (cases "find (\<lambda>c. c_id c = challengeID \<and> in_window c now) (challenges d)")
  case None
  then show ?thesis by (simp add: PickChallenge_def PickChallenge_at_def)
next
  case (Some c)
  then have c: "c \<in> set (challenges d)" "c_id c = challengeID"
    using find_Some_mem [OF Some] by simp_all
  show ?thesis
  proof (cases "c_status c = Available")
    case False
    then show ?thesis using Some by (simp add: PickChallenge_def PickChallenge_at_def)
  next
    case True
    have "\<forall>x\<in>set (challenges d). \<not> (c_id x = challengeID \<and> c_assigned_to x = Some userID)"
    proof
      fix x assume x: "x \<in> set (challenges d)"
      show "\<not> (c_id x = challengeID \<and> c_assigned_to x = Some userID)"
      proof
        assume h: "c_id x = challengeID \<and> c_assigned_to x = Some userID"
        then have "x = c"
          using same_key_same_row [of c_id "challenges d" c x] ok c x by (simp add: store_ok_def)
        moreover from a c have "assignment_ok c" by simp
        ultimately show False using h True by (simp add: assignment_ok_def)
      qed
    qed
    then have "sql_count (\<lambda>x. c_id x = challengeID \<and> c_assigned_to x = Some userID)
        (challenges d) = 0"
      by (simp add: sql_count_zero)
    then show ?thesis using Some True
      by (simp add: PickChallenge_def PickChallenge_at_def split_beta)
  qed
qed

lemma Pick_AlreadyAssigned_unreachable:
  assumes "store_ok d" and "\<forall>c\<in>set (challenges d). c_status c = Available \<and> c_assigned_to c = None"
  shows "fst (PickChallenge (run d reqs) now challengeID userID) \<noteq> PickAlreadyAssigned"
proof -
  have "\<forall>c\<in>set (challenges d). assignment_ok c"
    using assms(2) by (simp add: assignment_ok_def)
  with assms(1) have "store_ok (run d reqs) \<and> (\<forall>c\<in>set (challenges (run d reqs)). assignment_ok c)"
    by (rule run_invariant)
  then show ?thesis using Pick_never_AlreadyAssigned by blast
qed

subsection \<open>A submission whose post was deleted\<close>

lemma find_submission:
  assumes "distinct (map (\<lambda>s. (cs_challenge_id s, cs_user_id s)) rows)"
    and "s \<in> set rows" and "is_submission c u s"
  shows "find (is_submission c u) rows = Some s"
  by (rule find_by_key [where key = "\<lambda>s. (cs_challenge_id s, cs_user_id s)"])
    (use assms in \<open>auto simp: is_submission_def\<close>)

lemma only_submission:
  assumes "distinct (map (\<lambda>s. (cs_challenge_id s, cs_user_id s)) rows)"
    and "s \<in> set rows" and "is_submission c u s"
    and "x \<in> set rows" and "is_submission c u x"
  shows "x = s"
  using same_key_same_row [of "\<lambda>s. (cs_challenge_id s, cs_user_id s)" rows s x] assms
  by (simp add: is_submission_def)

lemma Complete_keeps_submitted:
  assumes ok: "store_ok d" and s: "s \<in> set (challenge_submissions d)" and pos: "0 < cs_post_id s"
  shows "s \<in> set (challenge_submissions (snd (CompleteChallenge d now c u m t cap)))"
proof (cases "is_submission c u s")
  case False
  then have "s \<in> set (snd (sql_update (is_submission c u) f (challenge_submissions d)))" for f
    using s by (force simp: sql_update_def)
  then show ?thesis using s
    by (simp add: CompleteChallenge_def Let_def split: option.splits)
next
  case True
  from ok have dist: "distinct (map (\<lambda>s. (cs_challenge_id s, cs_user_id s)) (challenge_submissions d))"
    by (simp add: store_ok_def)
  have f: "find (is_submission c u) (challenge_submissions d) = Some s"
    by (rule find_submission [OF dist s True])
  have n: "sql_count (is_submission c u) (challenge_submissions d) \<noteq> 0"
    using s True by (auto simp: sql_count_zero)
  show ?thesis
  proof (cases "find (\<lambda>x. c_id x = c) (challenges d)")
    case None
    then show ?thesis using s by (simp add: CompleteChallenge_def)
  next
    case (Some x)
    show ?thesis
    proof (cases "c_challenge_type x = ''exclusive''")
      case True
      then show ?thesis using s Some
        by (simp add: CompleteChallenge_def Let_def split: option.splits)
    next
      case False
      then have "complete_check d x c u = Some CompleteAlreadySubmitted"
        using f n pos by (simp add: complete_check_def)
      then show ?thesis using s Some by (simp add: CompleteChallenge_def)
    qed
  qed
qed

lemma handle_keeps_submitted:
  assumes ok: "store_ok d" and s: "s \<in> set (challenge_submissions d)" and pos: "0 < cs_post_id s"
  shows "s \<in> set (challenge_submissions (handle d r))"
proof (cases r)
  case (PickReq now c u)
  then show ?thesis using s Pick_submissions [of d now c u] by auto
next
  case (CancelReq c u)
  from pos have "\<not> (is_submission c u s \<and> cs_post_id s = 0)" by simp
  then show ?thesis using s CancelReq Cancel_submissions by simp
next
  case (CompleteReq now c u m t cap)
  then show ?thesis using Complete_keeps_submitted [OF ok s pos] by simp
next
  case (AwardReq now c w)
  then show ?thesis using s by (simp add: Award_submissions)
next
  case (UnassignReq c)
  then show ?thesis using s by (simp add: Unassign_submissions)
next
  case (RevokeReq p)
  then show ?thesis using s by (simp add: Revoke_submissions)
next
  case (DeleteReq p u)
  then show ?thesis using s by (simp add: Delete_submissions)
next
  case (CreateReq pts sd ed ty)
  then show ?thesis using s by (simp add: Create_submissions)
qed

lemma handle_keeps_id_type:
  assumes "k \<in> set (map id_type (challenges d))"
  shows "k \<in> set (map id_type (challenges (handle d r)))"
proof (cases "\<exists>pts sd ed ty. r = CreateReq pts sd ed ty")
  case False
  then show ?thesis using assms handle_id_type [of r d] by simp
next
  case True
  then obtain pts sd ed ty where r: "r = CreateReq pts sd ed ty" by blast
  from Create_challenges [of d pts sd ed ty] have
    "set (challenges d) \<subseteq> set (challenges (snd (CreateChallenge d pts sd ed ty)))"
    by auto
  then show ?thesis using assms by (auto simp: r)
qed

lemma run_keeps_submitted:
  "store_ok d \<Longrightarrow> k \<in> set (map id_type (challenges d)) \<Longrightarrow>
   s \<in> set (challenge_submissions d) \<Longrightarrow> 0 < cs_post_id s \<Longrightarrow>
   store_ok (run d reqs) \<and> k \<in> set (map id_type (challenges (run d reqs))) \<and>
   s \<in> set (challenge_submissions (run d reqs))"
proof (induction reqs arbitrary: d)
  case Nil
  then show ?case by (simp add: run_def)
next
  case (Cons r reqs)
  have "run d (r # reqs) = run (handle d r) reqs" by (simp add: run_def)
  with Cons.IH [OF store_ok_handle [OF Cons.prems(1)] handle_keeps_id_type [OF Cons.prems(2)]
      handle_keeps_submitted [OF Cons.prems(1) Cons.prems(3) Cons.prems(4)] Cons.prems(4)]
  show ?case by simp
qed

lemma submitted_is_stuck:
  assumes ok: "store_ok d"
    and k: "(challengeID, ''open'') \<in> set (map id_type (challenges d))"
    and s: "s \<in> set (challenge_submissions d)" and sub: "is_submission challengeID userID s"
    and pos: "0 < cs_post_id s"
  shows "CompleteChallenge d now challengeID userID m t cap = (CompleteAlreadySubmitted, d) \<and>
         CancelChallenge d challengeID userID = (CancelNotYours, d) \<and>
         fst (PickChallenge d now challengeID userID) \<noteq> PickOk"
proof -
  from ok have dc: "distinct (map c_id (challenges d))"
    and ds: "distinct (map (\<lambda>s. (cs_challenge_id s, cs_user_id s)) (challenge_submissions d))"
    by (simp_all add: store_ok_def)
  from k obtain c where c: "c \<in> set (challenges d)" "c_id c = challengeID"
    "c_challenge_type c = ''open''"
    by (auto simp: id_type_def)
  have fc: "find (\<lambda>x. c_id x = challengeID) (challenges d) = Some c"
    by (rule find_by_key [where key = c_id]) (use dc c in auto)
  have fs: "find (is_submission challengeID userID) (challenge_submissions d) = Some s"
    by (rule find_submission [OF ds s sub])
  have n: "sql_count (is_submission challengeID userID) (challenge_submissions d) \<noteq> 0"
    using s sub by (auto simp: sql_count_zero)
  have "complete_check d c challengeID userID = Some CompleteAlreadySubmitted"
    using c fs n pos by (simp add: complete_check_def)
  then have complete: "CompleteChallenge d now challengeID userID m t cap =
      (CompleteAlreadySubmitted, d)"
    using fc by (simp add: CompleteChallenge_def)
  have "\<forall>x\<in>set (challenge_submissions d).
          \<not> (is_submission challengeID userID x \<and> cs_post_id x = 0)"
  proof
    fix x assume x: "x \<in> set (challenge_submissions d)"
    show "\<not> (is_submission challengeID userID x \<and> cs_post_id x = 0)"
    proof
      assume h: "is_submission challengeID userID x \<and> cs_post_id x = 0"
      then have "x = s" using only_submission [OF ds s sub x] by simp
      with h pos show False by simp
    qed
  qed
  then have "sql_delete (\<lambda>s. is_submission challengeID userID s \<and> cs_post_id s = 0)
      (challenge_submissions d) = (0, challenge_submissions d)"
    by (rule sql_delete_nothing)
  then have cancel: "CancelChallenge d challengeID userID = (CancelNotYours, d)"
    using fc c by (simp add: CancelChallenge_def)
  have pick: "fst (PickChallenge d now challengeID userID) \<noteq> PickOk"
  proof (cases "find (\<lambda>x. c_id x = challengeID \<and> in_window x now) (challenges d)")
    case None
    then show ?thesis by (simp add: PickChallenge_def PickChallenge_at_def)
  next
    case (Some c')
    then have "c' \<in> set (challenges d)" "c_id c' = challengeID"
      using find_Some_mem [OF Some] by simp_all
    then have "c' = c" using same_key_same_row [OF dc c(1)] c(2) by simp
    then show ?thesis using Some c n
      by (simp add: PickChallenge_def PickChallenge_at_def)
  qed
  from complete cancel pick show ?thesis by simp
qed

text \<open>
  Claim C10: a user has submitted post \<open>p\<close> to an open challenge, so their submission
  row \<open>s\<close> holds the post's id. \<open>DeletePost\<close> removes the post and leaves the table of
  submissions as it was, \<open>s\<close> with the id of the deleted post included. From then on,
  after any further requests, \<open>s\<close> is still there, \<open>CompleteChallenge\<close> by that user on
  that challenge answers \<open>AlreadySubmitted\<close>, \<open>CancelChallenge\<close> answers \<open>NotYours\<close>
  and \<open>PickChallenge\<close> never succeeds. (The administrator's deletion of the whole
  challenge is not among the requests.)
\<close>

theorem deleted_post_blocks_reentry:
  assumes "distinct (map c_id (challenges d))"
    and "\<forall>c\<in>set (challenges d). c_id c \<le> challenges_seq d"
    and "distinct (map (\<lambda>s. (cs_challenge_id s, cs_user_id s)) (challenge_submissions d))"
    and "distinct (map p_id (posts d))"
    and "c \<in> set (challenges d)" and "c_id c = challengeID" and "c_challenge_type c = ''open''"
    and "s \<in> set (challenge_submissions d)" and "is_submission challengeID userID s"
    and "0 < cs_post_id s"
    and "p \<in> set (posts d)" and "p_id p = cs_post_id s" and "p_user_id p = userID"
    and "p_challenge_id p = challengeID"
  shows "fst (DeletePost d (cs_post_id s) userID) = DeleteOk \<and>
         p \<notin> set (posts (snd (DeletePost d (cs_post_id s) userID))) \<and>
         challenge_submissions (snd (DeletePost d (cs_post_id s) userID)) =
           challenge_submissions d \<and>
         (\<forall>reqs now m t cap.
            s \<in> set (challenge_submissions (run (snd (DeletePost d (cs_post_id s) userID)) reqs)) \<and>
            fst (CompleteChallenge (run (snd (DeletePost d (cs_post_id s) userID)) reqs)
                   now challengeID userID m t cap) = CompleteAlreadySubmitted \<and>
            fst (CancelChallenge (run (snd (DeletePost d (cs_post_id s) userID)) reqs)
                   challengeID userID) = CancelNotYours \<and>
            fst (PickChallenge (run (snd (DeletePost d (cs_post_id s) userID)) reqs)
                   now challengeID userID) \<noteq> PickOk)"
proof -
  let ?d1 = "snd (DeletePost d (cs_post_id s) userID)"
  have eq: "DeletePost d (cs_post_id s) userID =
           (DeleteOk,
            d\<lparr>posts := filter (\<lambda>q. p_id q \<noteq> p_id p) (posts d),
              challenges := map (\<lambda>x. if c_id x = p_challenge_id p
                                       then x\<lparr>c_assigned_to := None, c_status := Available\<rparr>
                                       else x) (challenges d)\<rparr>)"
    using DeletePost_found [of d p userID c] assms by simp
  have ok: "store_ok d" using assms(1-3) by (simp add: store_ok_def)
  have d1: "?d1 = handle d (DeleteReq (cs_post_id s) userID)" by simp
  have ok1: "store_ok ?d1" unfolding d1 by (rule store_ok_handle [OF ok])
  have "(challengeID, ''open'') \<in> set (map id_type (challenges d))"
    using assms(5-7) by (force simp: id_type_def)
  then have k1: "(challengeID, ''open'') \<in> set (map id_type (challenges ?d1))"
    unfolding d1 by (rule handle_keeps_id_type)
  have s1: "s \<in> set (challenge_submissions ?d1)"
    using assms(8) by (simp add: Delete_submissions)
  have later: "s \<in> set (challenge_submissions (run ?d1 reqs)) \<and>
            fst (CompleteChallenge (run ?d1 reqs) now challengeID userID m t cap) =
              CompleteAlreadySubmitted \<and>
            fst (CancelChallenge (run ?d1 reqs) challengeID userID) = CancelNotYours \<and>
            fst (PickChallenge (run ?d1 reqs) now challengeID userID) \<noteq> PickOk"
    for reqs now m t cap
  proof -
    from run_keeps_submitted [OF ok1 k1 s1 assms(10), of reqs]
    have "store_ok (run ?d1 reqs)"
      and "(challengeID, ''open'') \<in> set (map id_type (challenges (run ?d1 reqs)))"
      and s': "s \<in> set (challenge_submissions (run ?d1 reqs))"
      by simp_all
    from submitted_is_stuck [OF this assms(9,10), of now m t cap] s'
    show ?thesis by simp
  qed
  have gone: "p \<notin> set (posts ?d1)" by (simp add: eq)
  have "fst (DeletePost d (cs_post_id s) userID) = DeleteOk" by (simp add: eq)
  moreover have "challenge_submissions ?d1 = challenge_submissions d"
    by (rule Delete_submissions)
  ultimately show ?thesis using gone later by blast
qed

text \<open>
  User 2 deletes post 1, their submission to challenge 2, then tries to cancel and to
  join again: the row \<open>(2, 2, 1)\<close> stays, and completing again is refused.
\<close>

theorem deleted_post_blocks_reentry_witness:
  "fst (DeletePost awarded_store 1 2) = DeleteOk \<and>
   challenge_submissions (snd (DeletePost awarded_store 1 2)) =
     challenge_submissions awarded_store \<and>
   \<lparr>cs_challenge_id = 2, cs_user_id = 2, cs_post_id = 1\<rparr> \<in>
     set (challenge_submissions (run (snd (DeletePost awarded_store 1 2))
        [CancelReq 2 2, PickReq clock8 2 2])) \<and>
   fst (CompleteChallenge (run (snd (DeletePost awarded_store 1 2))
        [CancelReq 2 2, PickReq clock8 2 2]) clock9 2 2 ''/uploads/posts/d.jpg'' ''photo'' ''again'') =
     CompleteAlreadySubmitted \<and>
   fst (CancelChallenge (run (snd (DeletePost awarded_store 1 2))
        [CancelReq 2 2, PickReq clock8 2 2]) 2 2) = CancelNotYours \<and>
   fst (PickChallenge (run (snd (DeletePost awarded_store 1 2))
        [CancelReq 2 2, PickReq clock8 2 2]) clock9 2 2) \<noteq> PickOk"
proof -
  let ?c = "\<lparr>c_id = 2, c_points = 30, c_assigned_to = None, c_status = Completed,
        c_completed_by = Some 3, c_completed_post_id = Some 2, c_completed_at = Some clock7,
        c_start_date = None, c_end_date = None, c_challenge_type = ''open''\<rparr>"
  let ?s = "\<lparr>cs_challenge_id = 2, cs_user_id = 2, cs_post_id = 1\<rparr>"
  let ?p = "\<lparr>p_id = 1, p_user_id = 2, p_challenge_id = 2, p_media_url = ''/uploads/posts/a.jpg'',
        p_media_type = ''photo'', p_caption = ''a'', p_revoked = False\<rparr>"
  have "fst (DeletePost awarded_store (cs_post_id ?s) 2) = DeleteOk \<and>
         ?p \<notin> set (posts (snd (DeletePost awarded_store (cs_post_id ?s) 2))) \<and>
         challenge_submissions (snd (DeletePost awarded_store (cs_post_id ?s) 2)) =
           challenge_submissions awarded_store \<and>
         (\<forall>reqs now m t cap.
            ?s \<in> set (challenge_submissions (run (snd (DeletePost awarded_store (cs_post_id ?s) 2)) reqs)) \<and>
            fst (CompleteChallenge (run (snd (DeletePost awarded_store (cs_post_id ?s) 2)) reqs)
                   now 2 2 m t cap) = CompleteAlreadySubmitted \<and>
            fst (CancelChallenge (run (snd (DeletePost awarded_store (cs_post_id ?s) 2)) reqs)
                   2 2) = CancelNotYours \<and>
            fst (PickChallenge (run (snd (DeletePost awarded_store (cs_post_id ?s) 2)) reqs)
                   now 2 2) \<noteq> PickOk)"
    by (rule deleted_post_blocks_reentry [where c = ?c and p = ?p])
      (simp_all add: awarded_store_eq is_submission_def)
  then have a: "fst (DeletePost awarded_store 1 2) = DeleteOk"
    and b: "challenge_submissions (snd (DeletePost awarded_store 1 2)) =
           challenge_submissions awarded_store"
    and c: "\<forall>reqs now m t cap.
            ?s \<in> set (challenge_submissions (run (snd (DeletePost awarded_store 1 2)) reqs)) \<and>
            fst (CompleteChallenge (run (snd (DeletePost awarded_store 1 2)) reqs)
                   now 2 2 m t cap) = CompleteAlreadySubmitted \<and>
            fst (CancelChallenge (run (snd (DeletePost awarded_store 1 2)) reqs)
                   2 2) = CancelNotYours \<and>
            fst (PickChallenge (run (snd (DeletePost awarded_store 1 2)) reqs)
                   now 2 2) \<noteq> PickOk"
    by simp_all
  from c have "?s \<in> set (challenge_submissions (run (snd (DeletePost awarded_store 1 2))
        [CancelReq 2 2, PickReq clock8 2 2])) \<and>
      fst (CompleteChallenge (run (snd (DeletePost awarded_store 1 2))
        [CancelReq 2 2, PickReq clock8 2 2]) clock9 2 2 ''/uploads/posts/d.jpg'' ''photo'' ''again'') =
        CompleteAlreadySubmitted \<and>
      fst (CancelChallenge (run (snd (DeletePost awarded_store 1 2))
        [CancelReq 2 2, PickReq clock8 2 2]) 2 2) = CancelNotYours \<and>
      fst (PickChallenge (run (snd (DeletePost awarded_store 1 2))
        [CancelReq 2 2, PickReq clock8 2 2]) clock9 2 2) \<noteq> PickOk"
    by blast
  with a b show ?thesis by blast
qed

section \<open>The scoring projection and open challenges\<close>

lemma sum_list_split:
  "sum_list (map f xs) =
   sum_list (map f (filter Q xs)) + sum_list (map f (filter (\<lambda>x. \<not> Q x) xs))"
  for f :: "'a \<Rightarrow> int"
  by (induction xs) simp_all

lemma sum_list_const:
  "\<forall>x\<in>set xs. f x = k \<Longrightarrow> sum_list (map f xs) = k * int (length xs)"
  for f :: "'a \<Rightarrow> int"
  by (induction xs) (simp_all add: algebra_simps)

lemma length_filter_split:
  "length (filter P xs) =
   length (filter P (filter Q xs)) + length (filter P (filter (\<lambda>x. \<not> Q x) xs))"
  by (induction xs) simp_all

lemma user_posts_without:
  "user_posts (d\<lparr>posts := filter Q (posts d)\<rparr>) u = filter Q (user_posts d u)"
  by (auto simp: user_posts_def intro: filter_cong)

lemma post_points_without [simp]:
  "post_points (d\<lparr>posts := ps\<rparr>) u = post_points d u"
  by (simp add: post_points_def fun_eq_iff)

lemma post_counts_without [simp]:
  "post_counts (d\<lparr>posts := ps\<rparr>) u = post_counts d u"
  by (simp add: post_counts_def fun_eq_iff)

lemma total_points_split:
  "total_points d u =
     sum_list (map (post_points d u) (filter (\<lambda>p. p_challenge_id p = cid) (user_posts d u))) +
     total_points (d\<lparr>posts := filter (\<lambda>p. p_challenge_id p \<noteq> cid) (posts d)\<rparr>) u"
  unfolding total_points_def user_posts_without post_points_without
  by (rule sum_list_split)

lemma challenges_completed_split:
  "challenges_completed d u =
     length (filter (post_counts d u) (filter (\<lambda>p. p_challenge_id p = cid) (user_posts d u))) +
     challenges_completed (d\<lparr>posts := filter (\<lambda>p. p_challenge_id p \<noteq> cid) (posts d)\<rparr>) u"
  unfolding challenges_completed_def user_posts_without post_counts_without
  by (rule length_filter_split)

lemma set_insert_row: "set (insert_row r rows) = insert r (set rows)"
  by (induction rows) auto

lemma set_order_rows: "set (order_rows rows) = set rows"
  by (induction rows) (simp_all add: order_rows_def set_insert_row)

lemma GetLeaderboard_rows:
  "row \<in> set (GetLeaderboard d) \<Longrightarrow>
   row = (fst row, total_points d (fst row), challenges_completed d (fst row))"
  by (auto simp: GetLeaderboard_def set_order_rows)

lemma GetProfile_stats:
  "GetProfile d u = Some r \<Longrightarrow> r = (total_points d u, challenges_completed d u)"
  by (auto simp: GetProfile_def split: option.splits dest: find_Some_mem)

text \<open>
  Claim C8: let an open challenge be completed with \<open>completed_by = b\<close>. For every
  other user \<open>a\<close> the two aggregates are what they would be if no post referred to the
  challenge at all, so the posts \<open>a\<close> submitted to it, revoked or not, earn nothing.
  For \<open>b\<close> each post to the challenge that is not revoked adds the challenge's points
  and one completion. The rows of the leaderboard and the profile carry exactly these
  aggregates.
\<close>

theorem open_non_winner_excluded:
  assumes "find (\<lambda>c. c_id c = challengeID) (challenges d) = Some c"
    and "c_challenge_type c = ''open''" and "c_status c = Completed"
    and "c_completed_by c = Some b" and "a \<noteq> b"
  shows "total_points d a =
           total_points (d\<lparr>posts := filter (\<lambda>p. p_challenge_id p \<noteq> challengeID) (posts d)\<rparr>) a \<and>
         challenges_completed d a =
           challenges_completed (d\<lparr>posts := filter (\<lambda>p. p_challenge_id p \<noteq> challengeID) (posts d)\<rparr>) a \<and>
         total_points d b =
           c_points c * int (length (filter (\<lambda>p. p_challenge_id p = challengeID) (user_posts d b))) +
           total_points (d\<lparr>posts := filter (\<lambda>p. p_challenge_id p \<noteq> challengeID) (posts d)\<rparr>) b \<and>
         challenges_completed d b =
           length (filter (\<lambda>p. p_challenge_id p = challengeID) (user_posts d b)) +
           challenges_completed (d\<lparr>posts := filter (\<lambda>p. p_challenge_id p \<noteq> challengeID) (posts d)\<rparr>) b \<and>
         (\<forall>row\<in>set (GetLeaderboard d).
            row = (fst row, total_points d (fst row), challenges_completed d (fst row))) \<and>
         (\<forall>u r. GetProfile d u = Some r \<longrightarrow> r = (total_points d u, challenges_completed d u))"
proof -
  let ?on = "\<lambda>p. p_challenge_id p = challengeID"
  have a0: "\<forall>p\<in>set (filter ?on (user_posts d a)). post_points d a p = 0"
    using assms by (simp add: post_points_def earns_points_def)
  have a1: "\<forall>p\<in>set (filter ?on (user_posts d a)). \<not> post_counts d a p"
    using assms by (simp add: post_counts_def earns_points_def)
  have b0: "\<forall>p\<in>set (filter ?on (user_posts d b)). post_points d b p = c_points c"
    using assms by (simp add: post_points_def earns_points_def)
  have b1: "\<forall>p\<in>set (filter ?on (user_posts d b)). post_counts d b p"
    using assms by (simp add: post_counts_def earns_points_def)
  have "sum_list (map (post_points d a) (filter ?on (user_posts d a))) = 0"
    using sum_list_const [OF a0] by simp
  then have ta: "total_points d a =
      total_points (d\<lparr>posts := filter (\<lambda>p. p_challenge_id p \<noteq> challengeID) (posts d)\<rparr>) a"
    using total_points_split [of d a challengeID] by simp
  have "filter (post_counts d a) (filter ?on (user_posts d a)) = []"
    using a1 by (simp add: filter_empty_conv)
  then have ca: "challenges_completed d a =
      challenges_completed (d\<lparr>posts := filter (\<lambda>p. p_challenge_id p \<noteq> challengeID) (posts d)\<rparr>) a"
    using challenges_completed_split [of d a challengeID] by simp
  have tb: "total_points d b =
      c_points c * int (length (filter ?on (user_posts d b))) +
      total_points (d\<lparr>posts := filter (\<lambda>p. p_challenge_id p \<noteq> challengeID) (posts d)\<rparr>) b"
    using total_points_split [of d b challengeID] sum_list_const [OF b0] by simp
  have "filter (post_counts d b) (filter ?on (user_posts d b)) = filter ?on (user_posts d b)"
    using b1 by (intro filter_True) simp
  then have cb: "challenges_completed d b =
      length (filter ?on (user_posts d b)) +
      challenges_completed (d\<lparr>posts := filter (\<lambda>p. p_challenge_id p \<noteq> challengeID) (posts d)\<rparr>) b"
    using challenges_completed_split [of d b challengeID] by simp
  from ta ca tb cb show ?thesis
    using GetLeaderboard_rows GetProfile_stats by blast
qed

text \<open>
  Users 2, 3 and 4 submitted to challenge 2 (30 points) and user 3 was awarded: only
  user 3 has the points.
\<close>

theorem open_non_winner_excluded_witness:
  "total_points awarded_store 2 = 0 \<and> challenges_completed awarded_store 2 = 0 \<and>
   total_points awarded_store 3 = 30 \<and> challenges_completed awarded_store 3 = 1 \<and>
   total_points awarded_store 4 = 0 \<and> challenges_completed awarded_store 4 = 0 \<and>
   GetLeaderboard awarded_store = [(3, 30, 1), (2, 0, 0), (4, 0, 0)] \<and>
   GetProfile awarded_store 2 = Some (0, 0)"
  using open_non_winner_excluded [of 2 awarded_store
      "\<lparr>c_id = 2, c_points = 30, c_assigned_to = None, c_status = Completed,
        c_completed_by = Some 3, c_completed_post_id = Some 2, c_completed_at = Some clock7,
        c_start_date = None, c_end_date = None, c_challenge_type = ''open''\<rparr>" 3 2]
    open_non_winner_excluded [of 2 awarded_store
      "\<lparr>c_id = 2, c_points = 30, c_assigned_to = None, c_status = Completed,
        c_completed_by = Some 3, c_completed_post_id = Some 2, c_completed_at = Some clock7,
        c_start_date = None, c_end_date = None, c_challenge_type = ''open''\<rparr>" 3 4]
  by (simp add: awarded_store_eq total_points_def challenges_completed_def user_posts_def
      post_points_def post_counts_def earns_points_def GetLeaderboard_def GetProfile_def
      order_rows_def)

end
